theory Spec2Isabelle
  imports Main "HOL-Library.Sublist"
begin

section \<open>The basic agent loop workflow of \<^verbatim>\<open>01_basic_agent.ipynb\<close>\<close>

text \<open>
  The notebook defines a Pydantic model \<^verbatim>\<open>AgentConfig\<close> and a workflow class
  \<^verbatim>\<open>BasicAgent\<close> with four steps: \<^verbatim>\<open>setup\<close>, \<^verbatim>\<open>speak_with_agent\<close>,
  \<^verbatim>\<open>handle_tool_call\<close> and \<^verbatim>\<open>aggregate_tool_results\<close>. Each step is embedded as a
  function from the state of the run and the event it receives to the events it emits
  and the new state, or to the exception it raises. The language model and the tools
  are parameters: records of the functions the steps call on them.
\<close>

subsection \<open>Python values and strings\<close>

text \<open>
  A string is a list of characters (code points below 256). The values of a tool
  call's arguments and of the user state are Python objects; the steps only format
  them, with \<^verbatim>\<open>str\<close> in an f-string field and with \<^verbatim>\<open>repr\<close> inside the rendering of
  a dict.
\<close>

datatype pyval = PNone | PBool bool | PInt int | PStr string

definition NL :: char where
  "NL = CHR 0x0A"

definition QUOTE :: char where
  "QUOTE = CHR 0x27"

definition DQUOTE :: char where
  "DQUOTE = CHR 0x22"

definition BACKSLASH :: char where
  "BACKSLASH = CHR 0x5C"

text \<open>\<^verbatim>\<open>str\<close> of an integer: its decimal digits, after a minus sign when negative.\<close>

definition digit_char :: "nat \<Rightarrow> char" where
  "digit_char d = char_of (48 + d)"

fun str_nat :: "nat \<Rightarrow> string" where
  "str_nat n = (if n < 10 then [digit_char n] else str_nat (n div 10) @ [digit_char (n mod 10)])"

declare str_nat.simps [simp del]

definition str_int :: "int \<Rightarrow> string" where
  "str_int i = (if i < 0 then CHR ''-'' # str_nat (nat (- i)) else str_nat (nat i))"

text \<open>
  \<^verbatim>\<open>repr\<close> of a string: in single quotes, or in double quotes when it holds a single
  quote and no double quote; the quote and the backslash escaped, tab, newline and
  carriage return as \<^verbatim>\<open>\t\<close>, \<^verbatim>\<open>\n\<close> and \<^verbatim>\<open>\r\<close>, every other character that is not
  printable as \<^verbatim>\<open>\xhh\<close>.
\<close>

definition hex_char :: "nat \<Rightarrow> char" where
  "hex_char d = (if d < 10 then char_of (48 + d) else char_of (87 + d))"

definition repr_char :: "char \<Rightarrow> char \<Rightarrow> string" where
  "repr_char q c =
     (let n = (of_char c :: nat)
      in if c = q \<or> c = BACKSLASH then [BACKSLASH, c]
         else if n = 9 then [BACKSLASH, CHR ''t'']
         else if n = 10 then [BACKSLASH, CHR ''n'']
         else if n = 13 then [BACKSLASH, CHR ''r'']
         else if n < 32 \<or> (127 \<le> n \<and> n \<le> 160) \<or> n = 173
         then [BACKSLASH, CHR ''x'', hex_char (n div 16), hex_char (n mod 16)]
         else [c])"

definition repr_str :: "string \<Rightarrow> string" where
  "repr_str s =
     (let q = (if QUOTE \<in> set s \<and> DQUOTE \<notin> set s then DQUOTE else QUOTE)
      in [q] @ concat (map (repr_char q) s) @ [q])"

fun py_str :: "pyval \<Rightarrow> string" where
  "py_str PNone = ''None''"
| "py_str (PBool b) = (if b then ''True'' else ''False'')"
| "py_str (PInt i) = str_int i"
| "py_str (PStr s) = s"

fun py_repr :: "pyval \<Rightarrow> string" where
  "py_repr (PStr s) = repr_str s"
| "py_repr v = py_str v"

text \<open>\<^verbatim>\<open>sep.join(xs)\<close>.\<close>

fun join :: "string \<Rightarrow> string list \<Rightarrow> string" where
  "join sep [] = []"
| "join sep [x] = x"
| "join sep (x # y # ys) = x @ sep @ join sep (y # ys)"

text \<open>
  \<^verbatim>\<open>str.isspace\<close> on one character, for the code points below 256: the ASCII
  whitespace 0x09 to 0x0D, 0x1C to 0x1F and 0x20, and 0x85 and 0xA0.
\<close>

definition isspace :: "char \<Rightarrow> bool" where
  "isspace c =
     (let n = (of_char c :: nat)
      in (9 \<le> n \<and> n \<le> 13) \<or> (28 \<le> n \<and> n \<le> 32) \<or> n = 133 \<or> n = 160)"

text \<open>\<^verbatim>\<open>s.strip()\<close>: leading and trailing whitespace removed.\<close>

definition strip :: "string \<Rightarrow> string" where
  "strip s = rev (dropWhile isspace (rev (dropWhile isspace s)))"

text \<open>
  The rendering of a dict with string keys, \<^verbatim>\<open>{'a': 10, 'b': 10}\<close>; a key is
  rendered as a string is.
\<close>

definition repr_dict :: "(string \<times> pyval) list \<Rightarrow> string" where
  "repr_dict kw =
     ''{'' @ join '', '' (map (\<lambda>(k, v). repr_str k @ '': '' @ py_repr v) kw) @ ''}''"

text \<open>
  The exceptions the steps raise themselves. \<open>AttributeError a\<close> is the access of
  attribute \<open>a\<close> on \<^verbatim>\<open>None\<close>; \<open>TypeError\<close> and \<open>ValueError\<close> carry their message.
\<close>

datatype py_error = ValueError string | TypeError string | AttributeError string

subsection \<open>Chat messages, tools, the agent configuration and the language model\<close>

datatype role = System | User | Assistant | Tool

text \<open>
  Modelled from the spec: the class \<^verbatim>\<open>ChatMessage\<close> is imported from the framework;
  the spec gives it a role, a string content and optional tool-call metadata, which
  the notebook passes as the dict \<^verbatim>\<open>additional_kwargs\<close>.
\<close>

record chat_message =
  role :: role
  content :: string
  additional_kwargs :: "(string \<times> string) list"

text \<open>\<^verbatim>\<open>ToolSelection\<close>: one tool call requested by the model.\<close>

record tool_selection =
  tool_id :: string
  tool_name :: string
  tool_kwargs :: "(string \<times> pyval) list"

text \<open>
  A tool is its name (\<^verbatim>\<open>tool.metadata.get_name()\<close>) and its call
  (\<^verbatim>\<open>tool.acall(**kwargs)\<close>), which either returns an output, of which the step reads
  the string \<^verbatim>\<open>content\<close>, or raises an \<^verbatim>\<open>Exception\<close>, of which the step reads
  \<^verbatim>\<open>str(e)\<close>. Exceptions outside the class \<^verbatim>\<open>Exception\<close> (interpreter exit,
  cancellation) are not tool errors and are outside the model.
\<close>

datatype tool_outcome = Returns string | Raises string

record base_tool =
  get_name :: string
  acall :: "(string \<times> pyval) list \<Rightarrow> tool_outcome"

text \<open>
  \<^verbatim>\<open>AgentConfig\<close>: \<^verbatim>\<open>name: str\<close>, \<^verbatim>\<open>description: str\<close>,
  \<^verbatim>\<open>system_prompt: str | None = None\<close>, \<^verbatim>\<open>tools: list[BaseTool] | None = None\<close>.
  A Python value that may be \<^verbatim>\<open>None\<close> is an option.
\<close>

record agent_config =
  name :: string
  description :: string
  system_prompt :: "string option"
  tools :: "base_tool list option"

datatype validation_error = MissingField string

text \<open>
  The constructor \<^verbatim>\<open>AgentConfig(name=..., description=..., system_prompt=...,
  tools=...)\<close>. The class declares no validator, so Pydantic checks the declared fields
  only: \<open>name\<close> and \<open>description\<close> are required strings, the other two default to
  \<^verbatim>\<open>None\<close>. An argument that is not given is \<open>None\<close> here.
\<close>

definition AgentConfig ::
  "string option \<Rightarrow> string option \<Rightarrow> string option \<Rightarrow> base_tool list option
     \<Rightarrow> validation_error + agent_config" where
  "AgentConfig name_arg description_arg system_prompt_arg tools_arg =
     (case name_arg of
        None \<Rightarrow> Inl (MissingField ''name'')
      | Some n \<Rightarrow>
          (case description_arg of
             None \<Rightarrow> Inl (MissingField ''description'')
           | Some d \<Rightarrow>
               Inr \<lparr>name = n, description = d, system_prompt = system_prompt_arg,
                    tools = tools_arg\<rparr>))"

text \<open>
  The language model client, as the steps use it: the flag
  \<^verbatim>\<open>llm.metadata.is_function_calling_model\<close>, the call \<^verbatim>\<open>llm.achat_with_tools(tools,
  chat_history=llm_input)\<close> and \<^verbatim>\<open>llm.get_tool_calls_from_response(response,
  error_on_no_tool_call=False)\<close>. Of a response the steps read \<^verbatim>\<open>response.message\<close>.
  The model's answer is a function of the whole input, which holds the conversation
  so far; the call is taken to return.
\<close>

record chat_response =
  message :: chat_message

record llm =
  is_function_calling_model :: bool
  achat_with_tools :: "base_tool list option \<Rightarrow> chat_message list \<Rightarrow> chat_response"
  get_tool_calls_from_response :: "chat_response \<Rightarrow> tool_selection list"

subsection \<open>Events and the state of a run\<close>

text \<open>
  A chat history is a Python list, which the steps extend in place: the state holds a
  store of list objects, and the context, the start event and the result hold a
  reference into it.
\<close>

type_synonym ref = nat

text \<open>
  The keyword arguments of \<^verbatim>\<open>workflow.run(...)\<close>, read with \<^verbatim>\<open>ev.get(key,
  default)\<close>. The outer option is \<open>None\<close> for a keyword that was not passed; the inner
  one is the Python value, \<open>None\<close> for \<^verbatim>\<open>None\<close>.
\<close>

record start_event =
  ev_agent_config :: "agent_config option option"
  ev_user_msg :: "string option option"
  ev_llm :: "llm option option"
  ev_chat_history :: "ref option option"
  ev_initial_state :: "(string \<times> pyval) list option option"

definition ev_get :: "'a option option \<Rightarrow> 'a option \<Rightarrow> 'a option" where
  "ev_get kw dflt = (case kw of None \<Rightarrow> dflt | Some v \<Rightarrow> v)"

text \<open>The result of a run: the dict that \<^verbatim>\<open>StopEvent\<close> carries.\<close>

record run_result =
  response :: string
  chat_history :: ref

datatype event =
  StartEvent start_event
| LLMCallEvent
| ToolCallEvent tool_selection "base_tool list option"
| ToolCallResultEvent chat_message
| StopEvent run_result

text \<open>
  The state of a run: the store of chat-history lists, the keys of the workflow
  context (\<open>None\<close> while a key is not set), the buffer of \<^verbatim>\<open>ctx.collect_events\<close>, the
  progress stream (\<^verbatim>\<open>ProgressEvent.msg\<close> of each event written to it) and the inputs
  of the calls made to the language model so far. The context is the framework's
  key-value bag: \<^verbatim>\<open>ctx.set\<close> keeps the object it is given and \<^verbatim>\<open>ctx.get\<close> returns it,
  so the chat history in the context is a reference to the list that \<^verbatim>\<open>setup\<close> read
  from the start event.
\<close>

record world =
  heap :: "ref \<Rightarrow> chat_message list"
  next_ref :: ref
  ctx_agent_config :: "agent_config option option"
  ctx_llm :: "llm option"
  ctx_chat_history :: "ref option"
  ctx_user_state :: "(string \<times> pyval) list option option"
  ctx_num_tool_calls :: "nat option"
  events_buffer :: "chat_message list"
  stream :: "string list"
  llm_calls :: "chat_message list list"

text \<open>
  A step returns the exception it raised, or the events it emitted (those sent with
  \<^verbatim>\<open>ctx.send_event\<close>, then the returned one, if any); the state is the one it left.
\<close>

type_synonym step_result = "(py_error + event list) \<times> world"

text \<open>\<^verbatim>\<open>await ctx.get(key)\<close> raises \<^verbatim>\<open>ValueError\<close> for a key that is not set.\<close>

definition key_not_found :: "string \<Rightarrow> py_error" where
  "key_not_found k = ValueError (''Key '' @ k @ '' not found in Context'')"

text \<open>\<^verbatim>\<open>lst.append(m)\<close> on the list object at \<open>r\<close>.\<close>

definition list_append :: "ref \<Rightarrow> chat_message \<Rightarrow> world \<Rightarrow> world" where
  "list_append r m w = w\<lparr>heap := (heap w)(r := heap w r @ [m])\<rparr>"

subsection \<open>The step \<^verbatim>\<open>setup\<close>\<close>

text \<open>
  The first parameter is the default client \<^verbatim>\<open>OpenAI(model="gpt-4o",
  temperature=0.3)\<close>, whose construction is taken to succeed. The default chat history
  \<^verbatim>\<open>[]\<close> is a new list object.
\<close>

definition setup_step :: "llm \<Rightarrow> world \<Rightarrow> start_event \<Rightarrow> step_result" where
  "setup_step default_llm w ev =
     (let agent_config = ev_get (ev_agent_config ev) None;
          user_msg = ev_get (ev_user_msg ev) None;
          llm_arg = ev_get (ev_llm ev) (Some default_llm);
          w1 = (case ev_chat_history ev of
                  None \<Rightarrow> w\<lparr>heap := (heap w)(next_ref w := []), next_ref := Suc (next_ref w)\<rparr>
                | Some _ \<Rightarrow> w);
          chat_history_arg = ev_get (ev_chat_history ev) (Some (next_ref w));
          initial_state = ev_get (ev_initial_state ev) (Some [])
      in case (user_msg, llm_arg, chat_history_arg) of
           (Some um, Some l, Some r) \<Rightarrow>
             if \<not> is_function_calling_model l
             then (Inl (ValueError ''LLM must be a function calling model!''), w1)
             else
               (let w2 = w1\<lparr>ctx_agent_config := Some agent_config\<rparr>;
                    w3 = w2\<lparr>ctx_llm := Some l\<rparr>;
                    w4 = list_append r \<lparr>role = User, content = um, additional_kwargs = []\<rparr> w3;
                    w5 = w4\<lparr>ctx_chat_history := Some r\<rparr>;
                    w6 = w5\<lparr>ctx_user_state := Some initial_state\<rparr>
                in (Inr [LLMCallEvent], w6))
         | _ \<Rightarrow>
             (Inl (ValueError ''User message, llm, and chat_history are required!''), w1))"

subsection \<open>The step \<^verbatim>\<open>speak_with_agent\<close>\<close>

definition render_user_state :: "(string \<times> pyval) list \<Rightarrow> string" where
  "render_user_state user_state = join [NL] (map (\<lambda>(k, v). k @ '': '' @ py_str v) user_state)"

definition render_system_prompt :: "string \<Rightarrow> string \<Rightarrow> string" where
  "render_system_prompt sp user_state_str =
     strip sp @ [NL, NL] @ ''Here is the current user state:'' @ [NL] @ user_state_str"

definition speak_with_agent :: "world \<Rightarrow> step_result" where
  "speak_with_agent w =
     (case ctx_agent_config w of
        None \<Rightarrow> (Inl (key_not_found ''agent_config''), w)
      | Some agent_config \<Rightarrow>
     (case ctx_chat_history w of
        None \<Rightarrow> (Inl (key_not_found ''chat_history''), w)
      | Some r \<Rightarrow>
     (case ctx_llm w of
        None \<Rightarrow> (Inl (key_not_found ''llm''), w)
      | Some l \<Rightarrow>
     (case ctx_user_state w of
        None \<Rightarrow> (Inl (key_not_found ''user_state''), w)
      | Some None \<Rightarrow> (Inl (AttributeError ''items''), w)
      | Some (Some user_state) \<Rightarrow>
     (case agent_config of
        None \<Rightarrow> (Inl (AttributeError ''system_prompt''), w)
      | Some cfg \<Rightarrow>
     (case system_prompt cfg of
        None \<Rightarrow> (Inl (AttributeError ''strip''), w)
      | Some sp \<Rightarrow>
          (let user_state_str = render_user_state user_state;
               system_prompt_str = render_system_prompt sp user_state_str;
               llm_input =
                 \<lparr>role = System, content = system_prompt_str, additional_kwargs = []\<rparr>
                   # heap w r;
               resp = achat_with_tools l (tools cfg) llm_input;
               w1 = w\<lparr>llm_calls := llm_calls w @ [llm_input]\<rparr>;
               tool_calls = get_tool_calls_from_response l resp
           in if length tool_calls = 0
              then
                (let w2 = list_append r (message resp) w1
                 in (Inr [StopEvent \<lparr>response = content (message resp), chat_history = r\<rparr>],
                     w2))
              else
                (let w2 = w1\<lparr>ctx_num_tool_calls := Some (length tool_calls)\<rparr>;
                     sent = map (\<lambda>tool_call. ToolCallEvent tool_call (tools cfg)) tool_calls;
                     w3 = list_append r (message resp) w2
                 in (Inr sent, w3)))))))))"

subsection \<open>The step \<^verbatim>\<open>handle_tool_call\<close>\<close>

text \<open>
  The dict comprehension \<^verbatim>\<open>{tool.metadata.get_name(): tool for tool in ev.tools}\<close>:
  a later tool replaces an earlier one of the same name.
\<close>

definition tools_by_name :: "base_tool list \<Rightarrow> string \<Rightarrow> base_tool option" where
  "tools_by_name ts = foldl (\<lambda>d t. d(get_name t \<mapsto> t)) Map.empty ts"

text \<open>
  \<^verbatim>\<open>additional_kwargs\<close> is built from \<^verbatim>\<open>tool.metadata.get_name()\<close> before the test
  \<^verbatim>\<open>if not tool\<close>, and outside the \<^verbatim>\<open>try\<close>: for a name that \<^verbatim>\<open>tools_by_name.get\<close>
  does not find, \<^verbatim>\<open>tool\<close> is \<^verbatim>\<open>None\<close> and the attribute access raises. Past that
  line \<^verbatim>\<open>tool\<close> is a tool object, which is true, so the branch of \<^verbatim>\<open>if not tool\<close> is
  never taken.
\<close>

definition handle_tool_call ::
  "world \<Rightarrow> tool_selection \<Rightarrow> base_tool list option \<Rightarrow> step_result" where
  "handle_tool_call w tool_call ev_tools =
     (case ev_tools of
        None \<Rightarrow> (Inl (TypeError ''NoneType object is not iterable''), w)
      | Some ts \<Rightarrow>
          (case tools_by_name ts (tool_name tool_call) of
             None \<Rightarrow> (Inl (AttributeError ''metadata''), w)
           | Some t \<Rightarrow>
               (let kwargs = [(''tool_call_id'', tool_id tool_call), (''name'', get_name t)];
                    tool_msg =
                      (case acall t (tool_kwargs tool_call) of
                         Returns out \<Rightarrow>
                           \<lparr>role = Tool, content = out, additional_kwargs = kwargs\<rparr>
                       | Raises e \<Rightarrow>
                           \<lparr>role = Tool,
                            content = ''Encountered error in tool call: '' @ e,
                            additional_kwargs = kwargs\<rparr>);
                    w1 = w\<lparr>stream := stream w @
                           [''Tool '' @ tool_name tool_call @ '' called with ''
                              @ repr_dict (tool_kwargs tool_call) @ '' returned ''
                              @ content tool_msg]\<rparr>
                in (Inr [ToolCallResultEvent tool_msg], w1))))"

subsection \<open>The step \<^verbatim>\<open>aggregate_tool_results\<close>\<close>

text \<open>
  Modelled from the spec: \<^verbatim>\<open>ctx.collect_events(ev, [ToolCallResultEvent] * n)\<close> is the
  framework's join, not part of the notebook. It accumulates the results that arrive
  and returns nothing until \<open>n\<close> of them have arrived; then it returns these \<open>n\<close>, in
  the order of their arrival, and forgets them.
\<close>

definition collect_events ::
  "world \<Rightarrow> chat_message \<Rightarrow> nat \<Rightarrow> chat_message list option \<times> world" where
  "collect_events w ev n =
     (let buf = events_buffer w @ [ev]
      in if n \<le> length buf
         then (Some (take n buf), w\<lparr>events_buffer := drop n buf\<rparr>)
         else (None, w\<lparr>events_buffer := buf\<rparr>))"

text \<open>
  \<^verbatim>\<open>if not results: return\<close> leaves both on \<^verbatim>\<open>None\<close> and on the empty list. The loop
  appends the results one by one.
\<close>

definition aggregate_tool_results :: "world \<Rightarrow> chat_message \<Rightarrow> step_result" where
  "aggregate_tool_results w ev =
     (case ctx_num_tool_calls w of
        None \<Rightarrow> (Inl (key_not_found ''num_tool_calls''), w)
      | Some num_tool_calls \<Rightarrow>
          (case collect_events w ev num_tool_calls of
             (None, w1) \<Rightarrow> (Inr [], w1)
           | (Some [], w1) \<Rightarrow> (Inr [], w1)
           | (Some results, w1) \<Rightarrow>
               (case ctx_chat_history w1 of
                  None \<Rightarrow> (Inl (key_not_found ''chat_history''), w1)
                | Some r \<Rightarrow>
                    (Inr [LLMCallEvent], foldl (\<lambda>w' m. list_append r m w') w1 results))))"

subsection \<open>The run\<close>

text \<open>
  Modelled from the spec: the event loop of the workflow framework
  (\<^verbatim>\<open>Workflow.run\<close>), not part of the notebook. It delivers each pending event to the
  step that accepts its type and adds the events the step emits to the pending ones;
  the run ends with the result of the first \<^verbatim>\<open>StopEvent\<close> a step returns, or with the
  exception a step raises; no step accepts a \<^verbatim>\<open>StopEvent\<close>. The steps that handle
  tool calls run concurrently, so their results arrive in any order: the scheduler
  \<open>sched\<close> picks, from the time and the pending events, the index of the event that
  completes next. The framework's timeout is not modelled: a run that would go on is
  cut by the fuel and has no outcome.
\<close>

datatype outcome = Completed run_result | Failed py_error | Stalled

fun dispatch :: "llm \<Rightarrow> world \<Rightarrow> event \<Rightarrow> step_result" where
  "dispatch d w (StartEvent ev) = setup_step d w ev"
| "dispatch d w LLMCallEvent = speak_with_agent w"
| "dispatch d w (ToolCallEvent tool_call ts) = handle_tool_call w tool_call ts"
| "dispatch d w (ToolCallResultEvent m) = aggregate_tool_results w m"
| "dispatch d w (StopEvent r) = (Inr [], w)"

fun stop_of :: "event list \<Rightarrow> run_result option" where
  "stop_of [] = None"
| "stop_of (StopEvent r # evs) = Some r"
| "stop_of (_ # evs) = stop_of evs"

fun run_loop ::
  "nat \<Rightarrow> (nat \<Rightarrow> event list \<Rightarrow> nat) \<Rightarrow> llm \<Rightarrow> world \<Rightarrow> event list
     \<Rightarrow> (outcome \<times> world) option" where
  "run_loop 0 sched d w pending = None"
| "run_loop (Suc fuel) sched d w [] = Some (Stalled, w)"
| "run_loop (Suc fuel) sched d w (e # es) =
     (let pending = e # es;
          i = sched fuel pending mod length pending;
          rest = take i pending @ drop (Suc i) pending
      in case dispatch d w (pending ! i) of
           (Inl err, w') \<Rightarrow> Some (Failed err, w')
         | (Inr evs, w') \<Rightarrow>
             (case stop_of evs of
                Some res \<Rightarrow> Some (Completed res, w')
              | None \<Rightarrow> run_loop fuel sched d w' (rest @ evs)))"

text \<open>
  \<^verbatim>\<open>workflow.run(**kwargs)\<close>: a new context, and the start event as the only pending
  event. \<open>h\<close> and \<open>n\<close> are the caller's list objects.
\<close>

definition init_world :: "(ref \<Rightarrow> chat_message list) \<Rightarrow> ref \<Rightarrow> world" where
  "init_world h n =
     \<lparr>heap = h, next_ref = n, ctx_agent_config = None, ctx_llm = None,
      ctx_chat_history = None, ctx_user_state = None, ctx_num_tool_calls = None,
      events_buffer = [], stream = [], llm_calls = []\<rparr>"

definition run ::
  "nat \<Rightarrow> (nat \<Rightarrow> event list \<Rightarrow> nat) \<Rightarrow> llm \<Rightarrow> (ref \<Rightarrow> chat_message list) \<Rightarrow> ref
     \<Rightarrow> start_event \<Rightarrow> (outcome \<times> world) option" where
  "run fuel sched d h n ev = run_loop fuel sched d (init_world h n) [StartEvent ev]"

subsection \<open>The notebook's example\<close>

text \<open>
  The tool and the agent configuration of the notebook. \<^verbatim>\<open>FunctionTool\<close> calls
  \<^verbatim>\<open>add_two_numbers(**kwargs)\<close> and keeps \<^verbatim>\<open>str\<close> of what it returns; on arguments
  other than two integers \<open>a\<close> and \<open>b\<close> the call is taken to raise.
\<close>

definition add_two_numbers :: "int \<Rightarrow> int \<Rightarrow> int" where
  "add_two_numbers a b = a + b"

definition add_two_numbers_tool :: base_tool where
  "add_two_numbers_tool =
     \<lparr>get_name = ''add_two_numbers'',
      acall = (\<lambda>kw. case (map_of kw ''a'', map_of kw ''b'') of
                 (Some (PInt a), Some (PInt b)) \<Rightarrow> Returns (str_int (add_two_numbers a b))
               | _ \<Rightarrow> Raises ''unsupported arguments'')\<rparr>"

definition example_config :: agent_config where
  "example_config =
     \<lparr>name = ''Addition Agent'',
      description = ''Used to add two numbers together.'',
      system_prompt = Some (''You are an agent that adds two numbers together. ''
        @ ''Do not help the user with anything else.''),
      tools = Some [add_two_numbers_tool]\<rparr>"

text \<open>
  A scripted client that answers as the model did in the notebook's first run: it
  asks for \<^verbatim>\<open>add_two_numbers(a=10, b=10)\<close> until the conversation holds a tool result,
  then it answers in plain text. \<open>scripted_llm nm\<close> asks for the tool named \<open>nm\<close>.
\<close>

definition scripted_llm :: "string \<Rightarrow> llm" where
  "scripted_llm nm =
     \<lparr>is_function_calling_model = True,
      achat_with_tools = (\<lambda>ts msgs.
        if \<exists>m \<in> set msgs. role m = Tool
        then \<lparr>message = \<lparr>role = Assistant, content = ''10 + 10 is 20.'',
                         additional_kwargs = []\<rparr>\<rparr>
        else \<lparr>message = \<lparr>role = Assistant, content = [],
                         additional_kwargs = [(''tool_calls'', nm)]\<rparr>\<rparr>),
      get_tool_calls_from_response = (\<lambda>resp.
        case map_of (additional_kwargs (message resp)) ''tool_calls'' of
          None \<Rightarrow> []
        | Some t \<Rightarrow> [\<lparr>tool_id = ''call_1'', tool_name = t,
                      tool_kwargs = [(''a'', PInt 10), (''b'', PInt 10)]\<rparr>])\<rparr>"

definition example_start :: "string \<Rightarrow> start_event" where
  "example_start nm =
     \<lparr>ev_agent_config = Some (Some example_config),
      ev_user_msg = Some (Some ''What is 10 + 10?''),
      ev_llm = Some (Some (scripted_llm nm)),
      ev_chat_history = Some (Some 0),
      ev_initial_state = Some (Some [(''user_name'', PStr ''Logan'')])\<rparr>"

subsection \<open>Notions used in the statements\<close>

text \<open>
  The state after the tool results \<open>ms\<close> have arrived at \<^verbatim>\<open>aggregate_tool_results\<close>
  one by one, in this order.
\<close>

definition arrived :: "world \<Rightarrow> chat_message list \<Rightarrow> world" where
  "arrived w ms = foldl (\<lambda>w' m. snd (aggregate_tool_results w' m)) w ms"

text \<open>
  The client that \<^verbatim>\<open>setup\<close> checks: the one passed as \<^verbatim>\<open>llm\<close>, or the default one
  when none is passed. An input is missing when \<^verbatim>\<open>user_msg\<close> is not passed or is
  \<^verbatim>\<open>None\<close>, or when \<^verbatim>\<open>llm\<close> or \<^verbatim>\<open>chat_history\<close> is passed as \<^verbatim>\<open>None\<close>.
\<close>

definition supplied_llm :: "llm \<Rightarrow> start_event \<Rightarrow> llm" where
  "supplied_llm default_llm ev = (case ev_llm ev of Some (Some l) \<Rightarrow> l | _ \<Rightarrow> default_llm)"

definition input_missing :: "start_event \<Rightarrow> bool" where
  "input_missing ev \<longleftrightarrow>
     ev_user_msg ev = None \<or> ev_user_msg ev = Some None \<or> ev_llm ev = Some None
     \<or> ev_chat_history ev = Some None"

text \<open>
  The lines of a string, as \<^verbatim>\<open>s.split("\n")\<close> gives them; the line that renders one
  entry of the user state; the line that precedes them; the system message that the
  model-call stage sends for a system prompt \<open>sp\<close> and a user state \<open>us\<close>.
\<close>

fun split_lines :: "string \<Rightarrow> string list" where
  "split_lines [] = [[]]"
| "split_lines (c # cs) =
     (if c = NL then [] # split_lines cs
      else (case split_lines cs of [] \<Rightarrow> [[c]] | l # ls \<Rightarrow> (c # l) # ls))"

definition render_entry :: "string \<times> pyval \<Rightarrow> string" where
  "render_entry kv = fst kv @ '': '' @ py_str (snd kv)"

definition user_state_header :: string where
  "user_state_header = ''Here is the current user state:''"

definition system_message :: "string \<Rightarrow> (string \<times> pyval) list \<Rightarrow> chat_message" where
  "system_message sp us =
     \<lparr>role = System, content = render_system_prompt sp (render_user_state us),
      additional_kwargs = []\<rparr>"

text \<open>
  The messages a run appends. The user message is the one \<^verbatim>\<open>setup\<close> builds. A message
  of a tool round is a tool result, or a response of the model that asks for tool
  calls; a final answer is a response of the model that asks for none.
\<close>

definition user_message :: "string \<Rightarrow> chat_message" where
  "user_message um = \<lparr>role = User, content = um, additional_kwargs = []\<rparr>"

definition tool_round_message :: "llm \<Rightarrow> chat_message \<Rightarrow> bool" where
  "tool_round_message l m \<longleftrightarrow>
     role m = Tool
     \<or> (\<exists>ts msgs. m = message (achat_with_tools l ts msgs)
           \<and> get_tool_calls_from_response l (achat_with_tools l ts msgs) \<noteq> [])"

definition final_answer :: "llm \<Rightarrow> chat_message \<Rightarrow> bool" where
  "final_answer l m \<longleftrightarrow>
     (\<exists>ts msgs. m = message (achat_with_tools l ts msgs)
        \<and> get_tool_calls_from_response l (achat_with_tools l ts msgs) = [])"

text \<open>
  A tool round: a response of the model that asks for tool calls, with as many tool
  results as it asks for calls. The messages of a list of rounds, in order.
\<close>

definition tool_round :: "llm \<Rightarrow> chat_message \<times> chat_message list \<Rightarrow> bool" where
  "tool_round l rd \<longleftrightarrow>
     (\<exists>ts msgs. fst rd = message (achat_with_tools l ts msgs)
        \<and> get_tool_calls_from_response l (achat_with_tools l ts msgs) \<noteq> []
        \<and> length (snd rd) = length (get_tool_calls_from_response l (achat_with_tools l ts msgs)))
     \<and> (\<forall>m \<in> set (snd rd). role m = Tool)"

definition flatten_rounds :: "(chat_message \<times> chat_message list) list \<Rightarrow> chat_message list" where
  "flatten_rounds rounds = concat (map (\<lambda>rd. fst rd # snd rd) rounds)"

subsection \<open>Invariants of a run\<close>

text \<open>
  The invariant of a run after \<^verbatim>\<open>setup\<close>: the context holds the chat history \<open>r\<close> and
  the client \<open>l\<close>; the list at \<open>r\<close> is \<open>base\<close> followed by messages of tool rounds and
  every other list is as in \<open>hs\<close>; the pending events are events of a round, and the
  results pending or collected are tool messages.
\<close>

fun in_round :: "event \<Rightarrow> bool" where
  "in_round (StartEvent ev) = False"
| "in_round LLMCallEvent = True"
| "in_round (ToolCallEvent tool_call ts) = True"
| "in_round (ToolCallResultEvent m) = (role m = Tool)"
| "in_round (StopEvent res) = False"

definition run_inv ::
  "ref \<Rightarrow> llm \<Rightarrow> chat_message list \<Rightarrow> (ref \<Rightarrow> chat_message list) \<Rightarrow> world \<Rightarrow> event list \<Rightarrow> bool"
  where
  "run_inv r l base hs w pending \<longleftrightarrow>
     ctx_chat_history w = Some r \<and> ctx_llm w = Some l
     \<and> (\<exists>mid. heap w r = base @ mid \<and> (\<forall>m \<in> set mid. tool_round_message l m))
     \<and> (\<forall>r'. r' \<noteq> r \<longrightarrow> heap w r' = hs r')
     \<and> (\<forall>e \<in> set pending. in_round e)
     \<and> (\<forall>m \<in> set (events_buffer w). role m = Tool)"

text \<open>
  What holds when a run has an outcome after \<^verbatim>\<open>setup\<close> has passed: the list at \<open>r\<close> is
  \<open>base\<close>, then messages of tool rounds and, when the run completed, the final answer
  that the result carries; every other list is as in \<open>hs\<close>.
\<close>

definition run_post ::
  "ref \<Rightarrow> llm \<Rightarrow> chat_message list \<Rightarrow> (ref \<Rightarrow> chat_message list) \<Rightarrow> outcome \<Rightarrow> world \<Rightarrow> bool"
  where
  "run_post r l base hs out w \<longleftrightarrow>
     (\<forall>r'. r' \<noteq> r \<longrightarrow> heap w r' = hs r')
     \<and> (\<exists>mid. (\<forall>m \<in> set mid. tool_round_message l m)
           \<and> (case out of
                 Completed res \<Rightarrow>
                   (\<exists>fin. heap w r = base @ mid @ [fin] \<and> final_answer l fin
                      \<and> res = \<lparr>response = content fin, chat_history = r\<rparr>)
               | _ \<Rightarrow> heap w r = base @ mid))"

text \<open>
  The invariant of the rounds of a run: either only the model call is pending, the
  buffer of results is empty and the chat history is \<open>base\<close> followed by whole rounds;
  or a round is open, its request is the last message, and the pending tool events
  and the collected results together are as many as the calls of the request. When
  such a run has an outcome, it is not that of a run left without events, and the
  chat history of a completed run is \<open>base\<close>, whole rounds and a last message, whose
  content is the response.
\<close>

fun tool_event :: "event \<Rightarrow> bool" where
  "tool_event (ToolCallEvent tool_call ts) = True"
| "tool_event (ToolCallResultEvent m) = (role m = Tool)"
| "tool_event _ = False"

definition round_inv :: "ref \<Rightarrow> llm \<Rightarrow> chat_message list \<Rightarrow> world \<Rightarrow> event list \<Rightarrow> bool" where
  "round_inv r l base w pending \<longleftrightarrow>
     ctx_chat_history w = Some r \<and> ctx_llm w = Some l
     \<and> (\<exists>rounds. (\<forall>rd \<in> set rounds. tool_round l rd)
           \<and> (pending = [LLMCallEvent] \<and> events_buffer w = []
                \<and> heap w r = base @ flatten_rounds rounds
              \<or> (\<exists>ts msgs.
                    ctx_num_tool_calls w =
                      Some (length (get_tool_calls_from_response l (achat_with_tools l ts msgs)))
                    \<and> length (events_buffer w) <
                        length (get_tool_calls_from_response l (achat_with_tools l ts msgs))
                    \<and> length pending + length (events_buffer w) =
                        length (get_tool_calls_from_response l (achat_with_tools l ts msgs))
                    \<and> (\<forall>e \<in> set pending. tool_event e)
                    \<and> (\<forall>m \<in> set (events_buffer w). role m = Tool)
                    \<and> heap w r = base @ flatten_rounds rounds
                         @ [message (achat_with_tools l ts msgs)])))"

definition round_post :: "ref \<Rightarrow> llm \<Rightarrow> chat_message list \<Rightarrow> outcome \<Rightarrow> world \<Rightarrow> bool" where
  "round_post r l base out w \<longleftrightarrow>
     out \<noteq> Stalled
     \<and> (\<forall>res. out = Completed res \<longrightarrow>
           (\<exists>rounds fin. (\<forall>rd \<in> set rounds. tool_round l rd)
              \<and> heap w r = base @ flatten_rounds rounds @ [fin]
              \<and> res = \<lparr>response = content fin, chat_history = r\<rparr>))"

subsection \<open>Inputs of the examples\<close>

text \<open>Two tool results, and a state that waits for \<open>N\<close> results.\<close>

definition result_a :: chat_message where
  "result_a = \<lparr>role = Tool, content = ''20'',
                additional_kwargs = [(''tool_call_id'', ''call_1''), (''name'', ''add_two_numbers'')]\<rparr>"

definition result_b :: chat_message where
  "result_b = \<lparr>role = Tool, content = ''7'',
                additional_kwargs = [(''tool_call_id'', ''call_2''), (''name'', ''add_two_numbers'')]\<rparr>"

definition waiting_world :: "nat \<Rightarrow> world" where
  "waiting_world N =
     (init_world (\<lambda>_. []) 1)\<lparr>ctx_chat_history := Some 0, ctx_num_tool_calls := Some N\<rparr>"

text \<open>A call of the notebook's tool with an argument that is not an integer.\<close>

definition failing_call :: tool_selection where
  "failing_call = \<lparr>tool_id = ''call_1'', tool_name = ''add_two_numbers'',
                    tool_kwargs = [(''a'', PStr ''ten''), (''b'', PInt 10)]\<rparr>"

text \<open>
  A second tool with the name of the notebook's tool, a client that does not declare
  function calling, and the notebook's configuration without a system prompt.
\<close>

definition shadowing_tool :: base_tool where
  "shadowing_tool = \<lparr>get_name = ''add_two_numbers'', acall = (\<lambda>kw. Returns ''0'')\<rparr>"

definition no_tools_llm :: llm where
  "no_tools_llm = (scripted_llm ''add_two_numbers'')\<lparr>is_function_calling_model := False\<rparr>"

definition promptless_config :: agent_config where
  "promptless_config = example_config\<lparr>system_prompt := None\<rparr>"

text \<open>
  The state of the notebook's first run when \<^verbatim>\<open>setup\<close> has returned; the request of
  the scripted client; the state when the tool result has been appended.
\<close>

definition ready_world :: world where
  "ready_world =
     (init_world (\<lambda>_. []) 1)
       \<lparr>heap := (\<lambda>_. [])(0 := [\<lparr>role = User, content = ''What is 10 + 10?'',
                                  additional_kwargs = []\<rparr>]),
        ctx_agent_config := Some (Some example_config),
        ctx_llm := Some (scripted_llm ''add_two_numbers''),
        ctx_chat_history := Some 0,
        ctx_user_state := Some (Some [(''user_name'', PStr ''Logan'')])\<rparr>"

definition tool_request :: chat_message where
  "tool_request = \<lparr>role = Assistant, content = [],
                    additional_kwargs = [(''tool_calls'', ''add_two_numbers'')]\<rparr>"

definition answered_world :: world where
  "answered_world =
     ready_world\<lparr>heap := (\<lambda>_. [])(0 := [user_message ''What is 10 + 10?'', tool_request,
                                       result_a])\<rparr>"

text \<open>A chat history that the caller kept from earlier turns.\<close>

definition earlier_history :: "ref \<Rightarrow> chat_message list" where
  "earlier_history =
     (\<lambda>_. [])(0 := [user_message ''Hello'',
                    \<lparr>role = Assistant, content = ''How can I help?'', additional_kwargs = []\<rparr>])"

section \<open>Properties of the steps\<close>

subsection \<open>Appending to a chat history, and the join\<close>

lemma foldl_list_append:
  "foldl (\<lambda>w' m. list_append r m w') w rs = w\<lparr>heap := (heap w)(r := heap w r @ rs)\<rparr>"
proof (induction rs arbitrary: w)
  case Nil
  show ?case by simp
next
  case (Cons m rs)
  have "foldl (\<lambda>w' m. list_append r m w') (list_append r m w) rs =
          (list_append r m w)\<lparr>heap := (heap (list_append r m w))
             (r := heap (list_append r m w) r @ rs)\<rparr>"
    by (rule Cons.IH)
  then show ?case by (simp add: list_append_def fun_upd_def cong: if_cong)
qed

lemma aggregate_waiting:
  assumes "ctx_num_tool_calls w = Some N" and "Suc (length (events_buffer w)) < N"
  shows "aggregate_tool_results w m = (Inr [], w\<lparr>events_buffer := events_buffer w @ [m]\<rparr>)"
  using assms by (simp add: aggregate_tool_results_def collect_events_def)

lemma aggregate_complete:
  assumes "ctx_num_tool_calls w = Some N" and "Suc (length (events_buffer w)) = N"
    and "ctx_chat_history w = Some r"
  shows "aggregate_tool_results w m =
           (Inr [LLMCallEvent],
            w\<lparr>events_buffer := [], heap := (heap w)(r := heap w r @ events_buffer w @ [m])\<rparr>)"
proof -
  have "take N (events_buffer w @ [m]) = events_buffer w @ [m]"
    using assms(2) by simp
  moreover have "drop N (events_buffer w @ [m]) = []"
    using assms(2) by simp
  ultimately show ?thesis
    using assms
    by (cases "events_buffer w")
       (auto simp add: aggregate_tool_results_def collect_events_def foldl_list_append
        split: list.splits)
qed

lemma collect_events_cases:
  "collect_events w m N = (res, w1) \<Longrightarrow>
     w1 = w\<lparr>events_buffer := events_buffer w1\<rparr>
     \<and> set (events_buffer w1) \<subseteq> insert m (set (events_buffer w))
     \<and> (\<forall>rs. res = Some rs \<longrightarrow> set rs \<subseteq> insert m (set (events_buffer w)))"
proof -
  assume a: "collect_events w m N = (res, w1)"
  define buf where "buf = events_buffer w @ [m]"
  have sub1: "set (take N buf) \<subseteq> insert m (set (events_buffer w))"
    using set_take_subset[of N buf] by (auto simp: buf_def)
  have sub2: "set (drop N buf) \<subseteq> insert m (set (events_buffer w))"
    using set_drop_subset[of N buf] by (auto simp: buf_def)
  have c: "collect_events w m N =
             (if N \<le> length buf then (Some (take N buf), w\<lparr>events_buffer := drop N buf\<rparr>)
              else (None, w\<lparr>events_buffer := buf\<rparr>))"
    by (simp add: collect_events_def buf_def)
  show ?thesis
  proof (cases "N \<le> length buf")
    case True
    then have "res = Some (take N buf)" and "w1 = w\<lparr>events_buffer := drop N buf\<rparr>"
      using a c by simp_all
    then show ?thesis using sub1 sub2 by simp
  next
    case False
    then have "res = None" and "w1 = w\<lparr>events_buffer := buf\<rparr>"
      using a c by simp_all
    then show ?thesis by (simp add: buf_def)
  qed
qed

lemma aggregate_cases:
  assumes "aggregate_tool_results w m = (x, w1)"
  shows "(\<exists>e. x = Inl e \<and> heap w1 = heap w)
       \<or> (x = Inr [] \<and> w1 = w\<lparr>events_buffer := events_buffer w1\<rparr>
            \<and> set (events_buffer w1) \<subseteq> insert m (set (events_buffer w)))
       \<or> (\<exists>r rs. x = Inr [LLMCallEvent] \<and> ctx_chat_history w = Some r
            \<and> set rs \<subseteq> insert m (set (events_buffer w))
            \<and> set (events_buffer w1) \<subseteq> insert m (set (events_buffer w))
            \<and> w1 = w\<lparr>events_buffer := events_buffer w1,
                     heap := (heap w)(r := heap w r @ rs)\<rparr>)"
proof (cases "ctx_num_tool_calls w")
  case None
  then show ?thesis using assms by (auto simp: aggregate_tool_results_def)
next
  case (Some N)
  obtain res w0 where c: "collect_events w m N = (res, w0)"
    by (cases "collect_events w m N")
  note cc = collect_events_cases[OF c]
  have w0: "w0 = w\<lparr>events_buffer := events_buffer w0\<rparr>" using cc by simp
  have hw0: "heap w0 = heap w" and chw0: "ctx_chat_history w0 = ctx_chat_history w"
    by (subst w0, simp)+
  show ?thesis
  proof (cases res)
    case None
    then have "x = Inr []" and "w1 = w0"
      using assms Some c by (simp_all add: aggregate_tool_results_def)
    then show ?thesis using cc by simp
  next
    case (Some rs)
    note res = this
    show ?thesis
    proof (cases rs)
      case Nil
      then have "x = Inr []" and "w1 = w0"
        using assms \<open>ctx_num_tool_calls w = Some N\<close> c res
        by (simp_all add: aggregate_tool_results_def)
      then show ?thesis using cc by simp
    next
      case (Cons a as)
      show ?thesis
      proof (cases "ctx_chat_history w")
        case None
        then have "x = Inl (key_not_found ''chat_history'')" and "w1 = w0"
          using assms \<open>ctx_num_tool_calls w = Some N\<close> c res Cons chw0
          by (simp_all add: aggregate_tool_results_def)
        then show ?thesis using hw0 by simp
      next
        case (Some r)
        have x: "x = Inr [LLMCallEvent]"
          and w1: "w1 = w0\<lparr>heap := (heap w0)(r := heap w0 r @ rs)\<rparr>"
          using assms \<open>ctx_num_tool_calls w = Some N\<close> c res Cons chw0 Some
          by (simp_all add: aggregate_tool_results_def foldl_list_append)
        have "w1 = w\<lparr>events_buffer := events_buffer w1,
                     heap := (heap w)(r := heap w r @ rs)\<rparr>"
          by (subst w1, subst w0, simp add: w1 hw0)
        moreover have "set (events_buffer w1) \<subseteq> insert m (set (events_buffer w))"
          using cc by (simp add: w1)
        moreover have "set rs \<subseteq> insert m (set (events_buffer w))"
          using cc res by simp
        ultimately show ?thesis
          using x Some by blast
      qed
    qed
  qed
qed

lemma arrived_snoc:
  "arrived w (ms @ [m]) = snd (aggregate_tool_results (arrived w ms) m)"
  by (simp add: arrived_def)

lemma arrived_waiting:
  assumes "ctx_num_tool_calls w = Some N" and "events_buffer w = []"
  shows "length ms < N \<Longrightarrow> arrived w ms = w\<lparr>events_buffer := ms\<rparr>"
proof (induction ms rule: rev_induct)
  case Nil
  have "w\<lparr>events_buffer := events_buffer w\<rparr> = w" by simp
  then show ?case by (simp add: arrived_def assms(2))
next
  case (snoc m ms)
  then have a: "arrived w ms = w\<lparr>events_buffer := ms\<rparr>" by simp
  have "aggregate_tool_results (w\<lparr>events_buffer := ms\<rparr>) m =
          (Inr [], w\<lparr>events_buffer := ms\<rparr>\<lparr>events_buffer :=
             events_buffer (w\<lparr>events_buffer := ms\<rparr>) @ [m]\<rparr>)"
    using snoc.prems assms(1) by (intro aggregate_waiting[where N = N]) simp_all
  then show ?case by (simp add: arrived_snoc a)
qed

lemma handle_tool_call_returns:
  assumes "handle_tool_call w tc ts = (Inr evs, w1)"
  shows "\<exists>m. evs = [ToolCallResultEvent m] \<and> role m = Tool \<and> heap w1 = heap w
            \<and> w1 = w\<lparr>stream := stream w1\<rparr>"
  using assms
  by (auto simp: handle_tool_call_def Let_def split: option.splits tool_outcome.splits)

subsection \<open>Tool lookup\<close>

lemma tools_by_name_snoc:
  "tools_by_name (ts @ [t]) = (tools_by_name ts)(get_name t \<mapsto> t)"
  by (simp add: tools_by_name_def)

lemma tools_by_name_last:
  "tools_by_name ts nm =
     (if filter (\<lambda>t. get_name t = nm) ts = [] then None
      else Some (last (filter (\<lambda>t. get_name t = nm) ts)))"
proof (induction ts rule: rev_induct)
  case Nil
  show ?case by (simp add: tools_by_name_def)
next
  case (snoc t ts)
  show ?case
    using snoc.IH by (simp add: tools_by_name_snoc)
qed

lemma tools_by_name_None:
  "tools_by_name ts nm = None \<longleftrightarrow> nm \<notin> get_name ` set ts"
  by (auto simp: tools_by_name_last filter_empty_conv)

text \<open>
  For every tool call whose name no tool of the list has, the step raises: the
  message that the tool does not exist is never produced.
\<close>

lemma handle_tool_call_absent:
  "tool_name tc \<notin> get_name ` set ts \<Longrightarrow>
   handle_tool_call w tc (Some ts) = (Inl (AttributeError ''metadata''), w)"
  using tools_by_name_None[of ts "tool_name tc"] by (simp add: handle_tool_call_def)

text \<open>
  C1. A tool call whose \<^verbatim>\<open>tool_name\<close> is absent from the agent's tools should yield a
  tool message saying that the tool does not exist, and raise nothing. The step does
  not do so: with the notebook's agent, whose only tool is \<^verbatim>\<open>add_two_numbers\<close>, a call
  of \<^verbatim>\<open>multiply\<close> raises \<^verbatim>\<open>AttributeError\<close> out of \<^verbatim>\<open>handle_tool_call\<close>, where
  \<^verbatim>\<open>additional_kwargs\<close> reads \<^verbatim>\<open>tool.metadata\<close> of \<^verbatim>\<open>None\<close>, and a run in which the
  model asks for \<^verbatim>\<open>multiply\<close> ends with that exception.
\<close>

theorem handle_tool_call_missing_tool_raises:
  "handle_tool_call (init_world (\<lambda>_. []) 1)
          \<lparr>tool_id = ''call_1'', tool_name = ''multiply'',
           tool_kwargs = [(''a'', PInt 10), (''b'', PInt 10)]\<rparr>
          (Some [add_two_numbers_tool])
     = (Inl (AttributeError ''metadata''), init_world (\<lambda>_. []) 1)
   \<and> map_option fst
       (run 3 (\<lambda>_ _. 0) (scripted_llm ''multiply'') (\<lambda>_. []) 1 (example_start ''multiply''))
     = Some (Failed (AttributeError ''metadata''))"
  by (simp add: handle_tool_call_def tools_by_name_def add_two_numbers_tool_def
      run_def numeral_3_eq_3 setup_step_def ev_get_def example_start_def scripted_llm_def
      list_append_def init_world_def speak_with_agent_def example_config_def Let_def)

subsection \<open>Errors of a tool\<close>

text \<open>
  C3. When the tool that the lookup finds for the call's name raises an exception
  \<open>e\<close>, \<^verbatim>\<open>handle_tool_call\<close> does not raise: it writes its progress event and emits one
  result event whose message has the role \<^verbatim>\<open>tool\<close> and the content
  \<^verbatim>\<open>Encountered error in tool call: e\<close>. \<^verbatim>\<open>aggregate_tool_results\<close> treats this
  message as any other result: when it is the last one awaited, it is appended to the
  chat history with the results collected before it, and \<^verbatim>\<open>LLMCallEvent\<close> follows.
  (By \<open>tools_by_name_None\<close> the lookup finds a tool exactly when some tool of the list
  has the name.)
\<close>

theorem handle_tool_call_catches_tool_error:
  assumes "tools_by_name ts (tool_name tc) = Some t"
    and "acall t (tool_kwargs tc) = Raises e"
  shows "\<exists>m. handle_tool_call w tc (Some ts) =
           (Inr [ToolCallResultEvent m],
            w\<lparr>stream := stream w @
               [''Tool '' @ tool_name tc @ '' called with '' @ repr_dict (tool_kwargs tc)
                  @ '' returned '' @ content m]\<rparr>)
         \<and> m = \<lparr>role = Tool, content = ''Encountered error in tool call: '' @ e,
                 additional_kwargs = [(''tool_call_id'', tool_id tc), (''name'', get_name t)]\<rparr>
         \<and> (\<forall>w2 r. ctx_num_tool_calls w2 = Some (Suc (length (events_buffer w2))) \<longrightarrow>
               ctx_chat_history w2 = Some r \<longrightarrow>
               aggregate_tool_results w2 m =
                 (Inr [LLMCallEvent],
                  w2\<lparr>events_buffer := [],
                     heap := (heap w2)(r := heap w2 r @ events_buffer w2 @ [m])\<rparr>))"
  using assms
  by (auto simp: handle_tool_call_def Let_def intro!: aggregate_complete)

theorem handle_tool_call_catches_tool_error_witness:
  "tools_by_name [add_two_numbers_tool] (tool_name failing_call) = Some add_two_numbers_tool
   \<and> acall add_two_numbers_tool (tool_kwargs failing_call) = Raises ''unsupported arguments''
   \<and> fst (handle_tool_call (waiting_world 1) failing_call (Some [add_two_numbers_tool])) =
       Inr [ToolCallResultEvent
         \<lparr>role = Tool,
          content = ''Encountered error in tool call: unsupported arguments'',
          additional_kwargs = [(''tool_call_id'', ''call_1''), (''name'', ''add_two_numbers'')]\<rparr>]
   \<and> ctx_num_tool_calls (waiting_world 1) = Some (Suc (length (events_buffer (waiting_world 1))))
   \<and> ctx_chat_history (waiting_world 1) = Some 0
   \<and> fst (aggregate_tool_results (waiting_world 1)
        \<lparr>role = Tool,
         content = ''Encountered error in tool call: unsupported arguments'',
         additional_kwargs = [(''tool_call_id'', ''call_1''), (''name'', ''add_two_numbers'')]\<rparr>)
       = Inr [LLMCallEvent]
   \<and> heap (snd (aggregate_tool_results (waiting_world 1)
        \<lparr>role = Tool,
         content = ''Encountered error in tool call: unsupported arguments'',
         additional_kwargs = [(''tool_call_id'', ''call_1''), (''name'', ''add_two_numbers'')]\<rparr>)) 0
       = [\<lparr>role = Tool,
           content = ''Encountered error in tool call: unsupported arguments'',
           additional_kwargs = [(''tool_call_id'', ''call_1''), (''name'', ''add_two_numbers'')]\<rparr>]"
proof -
  let ?m = "\<lparr>role = Tool,
         content = ''Encountered error in tool call: unsupported arguments'',
         additional_kwargs = [(''tool_call_id'', ''call_1''), (''name'', ''add_two_numbers'')]\<rparr>"
  have h: "tools_by_name [add_two_numbers_tool] (tool_name failing_call)
             = Some add_two_numbers_tool"
    "acall add_two_numbers_tool (tool_kwargs failing_call) = Raises ''unsupported arguments''"
    by (simp_all add: tools_by_name_def add_two_numbers_tool_def failing_call_def)
  have g: "ctx_num_tool_calls (waiting_world 1)
             = Some (Suc (length (events_buffer (waiting_world 1))))"
    "ctx_chat_history (waiting_world 1) = Some 0"
    by (simp_all add: waiting_world_def init_world_def)
  from handle_tool_call_catches_tool_error[OF h, of "waiting_world 1"]
  obtain m where m: "handle_tool_call (waiting_world 1) failing_call (Some [add_two_numbers_tool]) =
           (Inr [ToolCallResultEvent m],
            (waiting_world 1)\<lparr>stream := stream (waiting_world 1) @
               [''Tool '' @ tool_name failing_call @ '' called with ''
                  @ repr_dict (tool_kwargs failing_call) @ '' returned '' @ content m]\<rparr>)"
    "m = \<lparr>role = Tool, content = ''Encountered error in tool call: '' @ ''unsupported arguments'',
          additional_kwargs = [(''tool_call_id'', tool_id failing_call),
                               (''name'', get_name add_two_numbers_tool)]\<rparr>"
    "\<forall>w2 r. ctx_num_tool_calls w2 = Some (Suc (length (events_buffer w2))) \<longrightarrow>
               ctx_chat_history w2 = Some r \<longrightarrow>
               aggregate_tool_results w2 m =
                 (Inr [LLMCallEvent],
                  w2\<lparr>events_buffer := [],
                     heap := (heap w2)(r := heap w2 r @ events_buffer w2 @ [m])\<rparr>)"
    by blast
  have me: "m = ?m" using m(2) by (simp add: failing_call_def add_two_numbers_tool_def)
  have a: "aggregate_tool_results (waiting_world 1) m =
             (Inr [LLMCallEvent],
              (waiting_world 1)\<lparr>events_buffer := [],
                 heap := (heap (waiting_world 1))
                   (0 := heap (waiting_world 1) 0 @ events_buffer (waiting_world 1) @ [m])\<rparr>)"
    using m(3) g by blast
  have "fst (handle_tool_call (waiting_world 1) failing_call (Some [add_two_numbers_tool]))
          = Inr [ToolCallResultEvent ?m]"
    using m(1) me by simp
  moreover have "fst (aggregate_tool_results (waiting_world 1) ?m) = Inr [LLMCallEvent]"
    using a me by simp
  moreover have "heap (snd (aggregate_tool_results (waiting_world 1) ?m)) 0 = [?m]"
    using a me by (simp add: waiting_world_def init_world_def)
  ultimately show ?thesis using h g by (intro conjI)
qed

subsection \<open>The checks of \<^verbatim>\<open>setup\<close>\<close>

lemma setup_step_result:
  "fst (setup_step d w ev) =
     (if input_missing ev
      then Inl (ValueError ''User message, llm, and chat_history are required!'')
      else if \<not> is_function_calling_model (supplied_llm d ev)
      then Inl (ValueError ''LLM must be a function calling model!'')
      else Inr [LLMCallEvent])"
  by (cases "ev_user_msg ev"; cases "ev_llm ev"; cases "ev_chat_history ev")
     (auto simp: setup_step_def ev_get_def input_missing_def supplied_llm_def Let_def
        split: option.splits)

lemma setup_step_llm_calls:
  "llm_calls (snd (setup_step d w ev)) = llm_calls w"
  by (cases "ev_user_msg ev"; cases "ev_llm ev"; cases "ev_chat_history ev")
     (auto simp: setup_step_def ev_get_def Let_def list_append_def split: option.splits)

lemma setup_step_events:
  "setup_step d w ev = (Inr evs, w1) \<Longrightarrow> evs = [LLMCallEvent]"
  using setup_step_result[of d w ev] by (auto split: if_splits)

lemma run_Suc_start:
  "run (Suc fuel) sched d h n ev =
     (case setup_step d (init_world h n) ev of
        (Inl err, w') \<Rightarrow> Some (Failed err, w')
      | (Inr evs, w') \<Rightarrow> run_loop fuel sched d w' [LLMCallEvent])"
proof (cases "setup_step d (init_world h n) ev")
  case (Pair x w')
  show ?thesis
  proof (cases x)
    case (Inl e)
    then show ?thesis using Pair by (simp add: run_def Let_def)
  next
    case (Inr evs)
    then have "evs = [LLMCallEvent]" using Pair setup_step_events by blast
    then show ?thesis using Pair Inr by (simp add: run_def Let_def)
  qed
qed

text \<open>
  C5. \<^verbatim>\<open>setup\<close> raises exactly when an input is missing (no user message, or
  \<^verbatim>\<open>None\<close> as user message, client or chat history) or the client it is given does
  not declare function calling. It makes no call to the model; when it raises, the
  run fails with its error and the model has not been called.
\<close>

theorem setup_step_raises_iff:
  "(isl (fst (setup_step d w ev)) \<longleftrightarrow>
      input_missing ev \<or> \<not> is_function_calling_model (supplied_llm d ev))
   \<and> llm_calls (snd (setup_step d w ev)) = llm_calls w
   \<and> (\<forall>e w'. setup_step d (init_world h n) ev = (Inl e, w') \<longrightarrow>
         run (Suc fuel) sched d h n ev = Some (Failed e, w') \<and> llm_calls w' = [])"
proof (intro conjI allI impI)
  show "isl (fst (setup_step d w ev)) \<longleftrightarrow>
      input_missing ev \<or> \<not> is_function_calling_model (supplied_llm d ev)"
    by (simp add: setup_step_result)
  show "llm_calls (snd (setup_step d w ev)) = llm_calls w"
    by (rule setup_step_llm_calls)
next
  fix e w' assume a: "setup_step d (init_world h n) ev = (Inl e, w')"
  then show "run (Suc fuel) sched d h n ev = Some (Failed e, w')"
    by (simp add: run_Suc_start)
  show "llm_calls w' = []"
    using setup_step_llm_calls[of d "init_world h n" ev] a by (simp add: init_world_def)
qed

theorem setup_step_raises_iff_witness:
  "isl (fst (setup_step no_tools_llm (init_world (\<lambda>_. []) 1)
             ((example_start ''add_two_numbers'')\<lparr>ev_llm := None\<rparr>)))
   \<and> \<not> is_function_calling_model
         (supplied_llm no_tools_llm ((example_start ''add_two_numbers'')\<lparr>ev_llm := None\<rparr>))
   \<and> (\<exists>w'. run 1 (\<lambda>_ _. 0) no_tools_llm (\<lambda>_. []) 1
               ((example_start ''add_two_numbers'')\<lparr>ev_llm := None\<rparr>) =
            Some (Failed (ValueError ''LLM must be a function calling model!''), w')
          \<and> llm_calls w' = [])"
proof -
  let ?ev = "(example_start ''add_two_numbers'')\<lparr>ev_llm := None\<rparr>"
  let ?w = "init_world (\<lambda>_. []) 1"
  have nf: "\<not> is_function_calling_model (supplied_llm no_tools_llm ?ev)"
    by (simp add: supplied_llm_def no_tools_llm_def example_start_def)
  have nm: "\<not> input_missing ?ev"
    by (simp add: input_missing_def example_start_def)
  note t = setup_step_raises_iff[of no_tools_llm ?w ?ev "\<lambda>_. []" 1 0 "\<lambda>_ _. 0"]
  have r: "isl (fst (setup_step no_tools_llm ?w ?ev))"
    using t nf by blast
  obtain x w' where p: "setup_step no_tools_llm ?w ?ev = (x, w')"
    by (cases "setup_step no_tools_llm ?w ?ev")
  have "x = Inl (ValueError ''LLM must be a function calling model!'')"
    using setup_step_result[of no_tools_llm ?w ?ev] nf nm p by simp
  then have "run 1 (\<lambda>_ _. 0) no_tools_llm (\<lambda>_. []) 1 ?ev =
               Some (Failed (ValueError ''LLM must be a function calling model!''), w')
             \<and> llm_calls w' = []"
    using t p by (simp add: init_world_def)
  then show ?thesis using r nf by blast
qed

subsection \<open>Duplicate tool names\<close>

text \<open>
  C8, as the spec states it: an \<^verbatim>\<open>AgentConfig\<close> whose tools list holds two tools of
  the same name fails validation. The class has no validator: the notebook's
  configuration with a second tool named \<^verbatim>\<open>add_two_numbers\<close> is constructed.
\<close>

theorem AgentConfig_duplicate_names_counterexample:
  "\<not> distinct (map get_name [add_two_numbers_tool, shadowing_tool])
   \<and> \<not> isl (AgentConfig (Some ''Addition Agent'') (Some ''Used to add two numbers together.'')
               None (Some [add_two_numbers_tool, shadowing_tool]))"
  by (simp add: AgentConfig_def add_two_numbers_tool_def shadowing_tool_def)

text \<open>
  C8, amended. Given a name and a description, the constructor accepts every tools
  list as it is, with or without duplicate names. When a tool call is handled, a name
  resolves to the last tool of the list that has it: a later tool shadows an earlier
  one of the same name.
\<close>

theorem AgentConfig_accepts_duplicate_names:
  "AgentConfig (Some n) (Some d) sp (Some ts) =
     Inr \<lparr>name = n, description = d, system_prompt = sp, tools = Some ts\<rparr>
   \<and> tools_by_name ts nm =
       (if filter (\<lambda>t. get_name t = nm) ts = [] then None
        else Some (last (filter (\<lambda>t. get_name t = nm) ts)))"
  using tools_by_name_last[of ts nm] by (simp add: AgentConfig_def)

theorem AgentConfig_accepts_duplicate_names_witness:
  "tools (projr (AgentConfig (Some ''Addition Agent'') (Some ''Used to add two numbers together.'')
               None (Some [add_two_numbers_tool, shadowing_tool])))
     = Some [add_two_numbers_tool, shadowing_tool]
   \<and> tools_by_name [add_two_numbers_tool, shadowing_tool] ''add_two_numbers''
     = Some shadowing_tool"
  using AgentConfig_accepts_duplicate_names[of "''Addition Agent''"
      "''Used to add two numbers together.''" None "[add_two_numbers_tool, shadowing_tool]"
      "''add_two_numbers''"]
  by (simp add: add_two_numbers_tool_def shadowing_tool_def)

subsection \<open>The first two steps of a run\<close>

lemma speak_with_agent_raises:
  assumes "ctx_agent_config w = Some (Some cfg)" and "ctx_chat_history w = Some r"
    and "ctx_llm w = Some l" and "ctx_user_state w = Some (Some us)"
  shows "fst (speak_with_agent w) = Inl (AttributeError ''strip'') \<longleftrightarrow> system_prompt cfg = None"
    and "isl (fst (speak_with_agent w)) \<longleftrightarrow> system_prompt cfg = None"
    and "system_prompt cfg = None \<Longrightarrow> speak_with_agent w = (Inl (AttributeError ''strip''), w)"
  using assms by (auto simp: speak_with_agent_def Let_def split: option.splits)

lemma setup_step_ok:
  assumes "ev_user_msg ev = Some (Some um)" and "ev_get (ev_llm ev) (Some d) = Some l"
    and "is_function_calling_model l" and "ev_chat_history ev \<noteq> Some None"
  shows "\<exists>w1 r. setup_step d w ev = (Inr [LLMCallEvent], w1)
           \<and> ev_get (ev_chat_history ev) (Some (next_ref w)) = Some r
           \<and> ctx_agent_config w1 = Some (ev_get (ev_agent_config ev) None)
           \<and> ctx_llm w1 = Some l \<and> ctx_chat_history w1 = Some r
           \<and> ctx_user_state w1 = Some (ev_get (ev_initial_state ev) (Some []))
           \<and> ctx_num_tool_calls w1 = ctx_num_tool_calls w
           \<and> events_buffer w1 = events_buffer w \<and> llm_calls w1 = llm_calls w
           \<and> stream w1 = stream w
           \<and> heap w1 r = (if ev_chat_history ev = None then [] else heap w r)
                @ [\<lparr>role = User, content = um, additional_kwargs = []\<rparr>]
           \<and> (\<forall>r'. r' \<noteq> r \<longrightarrow> heap w1 r' = heap w r')"
  using assms
  by (cases "ev_chat_history ev")
     (auto simp: setup_step_def ev_get_def Let_def list_append_def split: option.splits)

subsection \<open>The system message\<close>

lemma split_lines_not_Nil [simp]: "split_lines s \<noteq> []"
  by (induction s) (auto split: list.splits)

lemma split_lines_no_NL: "NL \<notin> set s \<Longrightarrow> split_lines s = [s]"
  by (induction s) auto

lemma split_lines_append_NL:
  "split_lines (a @ NL # b) = split_lines a @ split_lines b"
proof (induction a)
  case Nil
  show ?case by simp
next
  case (Cons c a)
  obtain l ls where s: "split_lines a = l # ls"
    by (cases "split_lines a") simp_all
  show ?case
    using Cons.IH s by simp
qed

lemma split_lines_join:
  "xs \<noteq> [] \<Longrightarrow> \<forall>x \<in> set xs. NL \<notin> set x \<Longrightarrow> split_lines (join [NL] xs) = xs"
proof (induction xs)
  case Nil
  then show ?case by simp
next
  case (Cons x xs)
  show ?case
  proof (cases xs)
    case Nil
    then show ?thesis using Cons.prems by (simp add: split_lines_no_NL)
  next
    case (Cons y ys)
    have "split_lines (x @ NL # join [NL] xs) = split_lines x @ split_lines (join [NL] xs)"
      by (rule split_lines_append_NL)
    moreover have "split_lines (join [NL] xs) = xs"
      using Cons.IH Cons.prems Cons by simp
    moreover have "split_lines x = [x]"
      using Cons.prems by (simp add: split_lines_no_NL)
    ultimately show ?thesis using Cons by simp
  qed
qed

lemma render_user_state_eq:
  "render_user_state us = join [NL] (map render_entry us)"
proof -
  have "(\<lambda>(k, v). k @ '': '' @ py_str v) = render_entry"
    by (auto simp: render_entry_def fun_eq_iff)
  then show ?thesis by (simp add: render_user_state_def)
qed

lemma split_lines_system_prompt:
  assumes "\<forall>kv \<in> set us. NL \<notin> set (render_entry kv)"
  shows "split_lines (render_system_prompt sp (render_user_state us)) =
           split_lines (strip sp) @ [[], user_state_header]
             @ (if us = [] then [[]] else map render_entry us)"
proof -
  let ?J = "join [NL] (map render_entry us)"
  have J: "split_lines ?J = (if us = [] then [[]] else map render_entry us)"
    using assms by (auto simp: split_lines_join)
  have H: "split_lines user_state_header = [user_state_header]"
    by (rule split_lines_no_NL) (simp add: user_state_header_def NL_def)
  have "render_system_prompt sp (render_user_state us) =
          strip sp @ NL # ([] @ NL # (user_state_header @ NL # ?J))"
    by (simp add: render_system_prompt_def render_user_state_eq user_state_header_def)
  then have "split_lines (render_system_prompt sp (render_user_state us)) =
          split_lines (strip sp) @ split_lines [] @ split_lines user_state_header @ split_lines ?J"
    by (simp only: split_lines_append_NL append_assoc)
  then show ?thesis by (simp add: J H)
qed

lemma speak_with_agent_ok:
  assumes "ctx_agent_config w = Some (Some cfg)" and "system_prompt cfg = Some sp"
    and "ctx_chat_history w = Some r" and "ctx_llm w = Some l"
    and "ctx_user_state w = Some (Some us)"
    and "resp = achat_with_tools l (tools cfg) (system_message sp us # heap w r)"
    and "calls = get_tool_calls_from_response l resp"
  shows "speak_with_agent w =
           (if calls = []
            then (Inr [StopEvent \<lparr>response = content (message resp), chat_history = r\<rparr>],
                  w\<lparr>llm_calls := llm_calls w @ [system_message sp us # heap w r],
                    heap := (heap w)(r := heap w r @ [message resp])\<rparr>)
            else (Inr (map (\<lambda>tool_call. ToolCallEvent tool_call (tools cfg)) calls),
                  w\<lparr>llm_calls := llm_calls w @ [system_message sp us # heap w r],
                    ctx_num_tool_calls := Some (length calls),
                    heap := (heap w)(r := heap w r @ [message resp])\<rparr>))"
  using assms
  by (simp add: speak_with_agent_def system_message_def Let_def list_append_def)

lemma speak_with_agent_Inr:
  assumes "speak_with_agent w = (Inr evs, w1)"
  shows "\<exists>cfg sp r l us. ctx_agent_config w = Some (Some cfg) \<and> system_prompt cfg = Some sp
           \<and> ctx_chat_history w = Some r \<and> ctx_llm w = Some l
           \<and> ctx_user_state w = Some (Some us)"
  using assms
  by (auto simp: speak_with_agent_def split: option.splits)

lemma speak_with_agent_Inl:
  assumes "speak_with_agent w = (Inl e, w1)"
  shows "w1 = w"
  using assms
  by (auto simp: speak_with_agent_def Let_def split: option.splits if_splits)

text \<open>
  C6. When the model-call stage calls the model, the first message of the input is
  the system message, and the chat history follows it. Its content is the agent's
  system prompt (stripped of surrounding whitespace), a blank line, the line
  \<^verbatim>\<open>Here is the current user state:\<close> and then the entries of the user state, each
  rendered as \<^verbatim>\<open>key: value\<close>, joined by newlines in the order of the mapping. When no
  rendered entry holds a newline, the lines of the content after that header are
  exactly the rendered entries, one line per entry. For the user state
  \<^verbatim>\<open>{"user_name": "Logan"}\<close> the content has the line \<^verbatim>\<open>user_name: Logan\<close>, whatever
  the system prompt.
\<close>

theorem system_message_renders_user_state:
  assumes "ctx_agent_config w = Some (Some cfg)" and "system_prompt cfg = Some sp"
    and "ctx_chat_history w = Some r" and "ctx_llm w = Some l"
    and "ctx_user_state w = Some (Some us)"
  shows "\<exists>evs w1 sys. speak_with_agent w = (Inr evs, w1)
           \<and> llm_calls w1 = llm_calls w @ [sys # heap w r]
           \<and> role sys = System
           \<and> content sys =
               strip sp @ [NL, NL] @ ''Here is the current user state:'' @ [NL]
                 @ join [NL] (map (\<lambda>(k, v). k @ '': '' @ py_str v) us)
           \<and> ((\<forall>kv \<in> set us. NL \<notin> set (render_entry kv)) \<longrightarrow>
                split_lines (content sys) =
                  split_lines (strip sp) @ [[], ''Here is the current user state:'']
                    @ (if us = [] then [[]] else map render_entry us))
           \<and> (us = [(''user_name'', PStr ''Logan'')] \<longrightarrow>
                ''user_name: Logan'' \<in> set (split_lines (content sys)))"
proof -
  define resp where "resp = achat_with_tools l (tools cfg) (system_message sp us # heap w r)"
  define calls where "calls = get_tool_calls_from_response l resp"
  note ok = speak_with_agent_ok[OF assms resp_def calls_def]
  obtain evs w1 where s: "speak_with_agent w = (Inr evs, w1)"
    and lc: "llm_calls w1 = llm_calls w @ [system_message sp us # heap w r]"
    using ok by (cases "calls = []") simp_all
  have c: "content (system_message sp us) =
             strip sp @ [NL, NL] @ ''Here is the current user state:'' @ [NL]
               @ join [NL] (map (\<lambda>(k, v). k @ '': '' @ py_str v) us)"
    by (simp add: system_message_def render_system_prompt_def render_user_state_def)
  have l: "(\<forall>kv \<in> set us. NL \<notin> set (render_entry kv)) \<longrightarrow>
             split_lines (content (system_message sp us)) =
               split_lines (strip sp) @ [[], ''Here is the current user state:'']
                 @ (if us = [] then [[]] else map render_entry us)"
    using split_lines_system_prompt[of us sp]
    by (simp add: system_message_def user_state_header_def)
  have e: "us = [(''user_name'', PStr ''Logan'')] \<longrightarrow>
             ''user_name: Logan'' \<in> set (split_lines (content (system_message sp us)))"
  proof
    assume u: "us = [(''user_name'', PStr ''Logan'')]"
    then have "\<forall>kv \<in> set us. NL \<notin> set (render_entry kv)"
      by (simp add: render_entry_def NL_def)
    then have "split_lines (content (system_message sp us)) =
               split_lines (strip sp) @ [[], ''Here is the current user state:'']
                 @ map render_entry us"
      using l u by simp
    then show "''user_name: Logan'' \<in> set (split_lines (content (system_message sp us)))"
      using u by (simp add: render_entry_def)
  qed
  have "role (system_message sp us) = System" by (simp add: system_message_def)
  then show ?thesis using s lc c l e by blast
qed

lemma example_prompt_lines:
  "system_prompt example_config = Some sp \<Longrightarrow> split_lines (strip sp) = [sp]"
proof -
  assume "system_prompt example_config = Some sp"
  then have sp: "sp = ''You are an agent that adds two numbers together. Do not help the user with anything else.''"
    by (simp add: example_config_def)
  have "split_lines (strip ''You are an agent that adds two numbers together. Do not help the user with anything else.'')
        = [''You are an agent that adds two numbers together. Do not help the user with anything else.'']"
    by code_simp
  then show ?thesis by (simp only: sp)
qed

theorem system_message_renders_user_state_witness:
  "ctx_agent_config ready_world = Some (Some example_config)
   \<and> system_prompt example_config \<noteq> None
   \<and> ctx_chat_history ready_world = Some 0
   \<and> ctx_llm ready_world = Some (scripted_llm ''add_two_numbers'')
   \<and> ctx_user_state ready_world = Some (Some [(''user_name'', PStr ''Logan'')])
   \<and> ''user_name: Logan''
        \<in> set (split_lines (content (hd (last (llm_calls (snd (speak_with_agent ready_world)))))))
   \<and> split_lines (content (hd (last (llm_calls (snd (speak_with_agent ready_world)))))) =
        [the (system_prompt example_config), [], ''Here is the current user state:'',
         ''user_name: Logan'']"
proof -
  obtain sp where sp: "system_prompt example_config = Some sp"
    by (simp add: example_config_def)
  let ?us = "[(''user_name'', PStr ''Logan'')]"
  have h: "ctx_agent_config ready_world = Some (Some example_config)"
    "ctx_chat_history ready_world = Some 0"
    "ctx_llm ready_world = Some (scripted_llm ''add_two_numbers'')"
    "ctx_user_state ready_world = Some (Some ?us)"
    by (simp_all add: ready_world_def init_world_def)
  have nl: "\<forall>kv \<in> set ?us. NL \<notin> set (render_entry kv)"
    by (simp add: render_entry_def NL_def)
  from system_message_renders_user_state[OF h(1) sp h(2) h(3) h(4)]
  obtain evs w1 sys where s: "speak_with_agent ready_world = (Inr evs, w1)"
    "llm_calls w1 = llm_calls ready_world @ [sys # heap ready_world 0]"
    and a: "''user_name: Logan'' \<in> set (split_lines (content sys))"
    and b: "(\<forall>kv \<in> set ?us. NL \<notin> set (render_entry kv)) \<longrightarrow>
              split_lines (content sys) =
                split_lines (strip sp) @ [[], ''Here is the current user state:'']
                  @ (if ?us = [] then [[]] else map render_entry ?us)"
    by blast
  have "split_lines (content sys) =
          [sp, [], ''Here is the current user state:'', ''user_name: Logan'']"
    using b nl example_prompt_lines[OF sp] by (simp add: render_entry_def)
  then show ?thesis using s a h sp by simp
qed

section \<open>Properties of a run\<close>

subsection \<open>Induction over the event loop\<close>

lemma run_loop_induct:
  assumes "run_loop fuel sched d w pending = Some (out, w')"
    and "I w pending"
    and step: "\<And>w pending i evs w1. I w pending \<Longrightarrow> i < length pending \<Longrightarrow>
            dispatch d w (pending ! i) = (Inr evs, w1) \<Longrightarrow> stop_of evs = None \<Longrightarrow>
            I w1 ((take i pending @ drop (Suc i) pending) @ evs)"
    and stall: "\<And>w. I w [] \<Longrightarrow> Q Stalled w"
    and fail: "\<And>w pending i e w1. I w pending \<Longrightarrow> i < length pending \<Longrightarrow>
            dispatch d w (pending ! i) = (Inl e, w1) \<Longrightarrow> Q (Failed e) w1"
    and stop: "\<And>w pending i evs w1 res. I w pending \<Longrightarrow> i < length pending \<Longrightarrow>
            dispatch d w (pending ! i) = (Inr evs, w1) \<Longrightarrow> stop_of evs = Some res \<Longrightarrow>
            Q (Completed res) w1"
  shows "Q out w'"
  using assms(1,2)
proof (induction fuel arbitrary: w pending)
  case 0
  then show ?case by simp
next
  case (Suc fuel)
  show ?case
  proof (cases pending)
    case Nil
    then show ?thesis using Suc.prems stall by auto
  next
    case (Cons e es)
    define i where "i = sched fuel pending mod length pending"
    have i: "i < length pending" using Cons by (simp add: i_def)
    obtain x w1 where dx: "dispatch d w (pending ! i) = (x, w1)"
      by (cases "dispatch d w (pending ! i)")
    have unfold: "run_loop (Suc fuel) sched d w pending =
        (case dispatch d w (pending ! i) of
           (Inl err, w') \<Rightarrow> Some (Failed err, w')
         | (Inr evs, w') \<Rightarrow>
             (case stop_of evs of
                Some res \<Rightarrow> Some (Completed res, w')
              | None \<Rightarrow> run_loop fuel sched d w' ((take i pending @ drop (Suc i) pending) @ evs)))"
      unfolding Cons i_def by (simp add: Let_def)
    show ?thesis
    proof (cases x)
      case (Inl err)
      then have "out = Failed err" "w' = w1"
        using Suc.prems(1) unfold dx by simp_all
      then show ?thesis using fail[OF Suc.prems(2) i] dx Inl by simp
    next
      case (Inr evs)
      show ?thesis
      proof (cases "stop_of evs")
        case None
        then have "run_loop fuel sched d w1 ((take i pending @ drop (Suc i) pending) @ evs)
                     = Some (out, w')"
          using Suc.prems(1) unfold dx Inr by simp
        moreover have "I w1 ((take i pending @ drop (Suc i) pending) @ evs)"
          using step[OF Suc.prems(2) i] dx Inr None by simp
        ultimately show ?thesis by (rule Suc.IH)
      next
        case (Some res)
        then have "out = Completed res" "w' = w1"
          using Suc.prems(1) unfold dx Inr by simp_all
        then show ?thesis using stop[OF Suc.prems(2) i] dx Inr Some by simp
      qed
    qed
  qed
qed

subsection \<open>What each step does to the chat history\<close>

lemma stop_of_tool_calls:
  "stop_of (map (\<lambda>tool_call. ToolCallEvent tool_call ts) calls) = None"
  by (induction calls) simp_all

lemma set_remove_nth_subset:
  "set (take i xs @ drop (Suc i) xs) \<subseteq> set xs"
  using set_take_subset[of i xs] set_drop_subset[of "Suc i" xs] by auto

lemma speak_with_agent_continues:
  assumes "speak_with_agent w = (Inr evs, w1)" and "stop_of evs = None"
    and "ctx_chat_history w = Some r" and "ctx_llm w = Some l"
  shows "\<exists>m. tool_round_message l m \<and> heap w1 = (heap w)(r := heap w r @ [m])
           \<and> ctx_chat_history w1 = Some r \<and> ctx_llm w1 = Some l
           \<and> events_buffer w1 = events_buffer w \<and> (\<forall>e \<in> set evs. in_round e)"
proof -
  obtain cfg sp r' l' us where c: "ctx_agent_config w = Some (Some cfg)"
    "system_prompt cfg = Some sp" "ctx_chat_history w = Some r'" "ctx_llm w = Some l'"
    "ctx_user_state w = Some (Some us)"
    using speak_with_agent_Inr[OF assms(1)] by blast
  have r: "r' = r" and l: "l' = l" using c assms(3,4) by simp_all
  define resp where "resp = achat_with_tools l' (tools cfg) (system_message sp us # heap w r')"
  define calls where "calls = get_tool_calls_from_response l' resp"
  note ok = speak_with_agent_ok[OF c resp_def calls_def]
  have ne: "calls \<noteq> []"
  proof
    assume "calls = []"
    then have "evs = [StopEvent \<lparr>response = content (message resp), chat_history = r'\<rparr>]"
      using ok assms(1) by simp
    then show False using assms(2) by simp
  qed
  then have evs: "evs = map (\<lambda>tool_call. ToolCallEvent tool_call (tools cfg)) calls"
    and w1: "w1 = w\<lparr>llm_calls := llm_calls w @ [system_message sp us # heap w r'],
                    ctx_num_tool_calls := Some (length calls),
                    heap := (heap w)(r' := heap w r' @ [message resp])\<rparr>"
    using ok assms(1) by simp_all
  have "tool_round_message l (message resp)"
    unfolding tool_round_message_def using ne l by (auto simp: resp_def calls_def)
  then show ?thesis
    using evs w1 r c assms(3,4) by (intro exI[of _ "message resp"]) simp
qed

lemma speak_with_agent_stops:
  assumes "speak_with_agent w = (Inr evs, w1)" and "stop_of evs = Some res"
    and "ctx_chat_history w = Some r" and "ctx_llm w = Some l"
  shows "\<exists>m. final_answer l m \<and> heap w1 = (heap w)(r := heap w r @ [m])
           \<and> res = \<lparr>response = content m, chat_history = r\<rparr> \<and> evs = [StopEvent res]"
proof -
  obtain cfg sp r' l' us where c: "ctx_agent_config w = Some (Some cfg)"
    "system_prompt cfg = Some sp" "ctx_chat_history w = Some r'" "ctx_llm w = Some l'"
    "ctx_user_state w = Some (Some us)"
    using speak_with_agent_Inr[OF assms(1)] by blast
  have r: "r' = r" and l: "l' = l" using c assms(3,4) by simp_all
  define resp where "resp = achat_with_tools l' (tools cfg) (system_message sp us # heap w r')"
  define calls where "calls = get_tool_calls_from_response l' resp"
  note ok = speak_with_agent_ok[OF c resp_def calls_def]
  have e: "calls = []"
  proof (rule ccontr)
    assume "calls \<noteq> []"
    then have "evs = map (\<lambda>tool_call. ToolCallEvent tool_call (tools cfg)) calls"
      using ok assms(1) by simp
    then show False using assms(2) by (simp add: stop_of_tool_calls)
  qed
  then have evs: "evs = [StopEvent \<lparr>response = content (message resp), chat_history = r'\<rparr>]"
    and w1: "w1 = w\<lparr>llm_calls := llm_calls w @ [system_message sp us # heap w r'],
                    heap := (heap w)(r' := heap w r' @ [message resp])\<rparr>"
    using ok assms(1) by simp_all
  have "final_answer l (message resp)"
    unfolding final_answer_def using e l by (auto simp: resp_def calls_def)
  then show ?thesis
    using evs w1 r assms(2) by (intro exI[of _ "message resp"]) auto
qed

lemma handle_tool_call_Inl:
  "handle_tool_call w tc ts = (Inl e, w1) \<Longrightarrow> w1 = w"
  by (auto simp: handle_tool_call_def Let_def split: option.splits)

lemma dispatch_raises_heap:
  assumes "dispatch d w e = (Inl err, w1)" and "in_round e"
  shows "heap w1 = heap w"
proof (cases e)
  case LLMCallEvent
  then show ?thesis using assms by (auto dest: speak_with_agent_Inl)
next
  case (ToolCallEvent tc ts)
  then show ?thesis using assms by (auto dest: handle_tool_call_Inl)
next
  case (ToolCallResultEvent m)
  then show ?thesis using assms aggregate_cases[of w m "Inl err" w1] by auto
qed (use assms in simp_all)

lemma dispatch_keeps_inv:
  assumes inv: "run_inv r l base hs w pending" and i: "i < length pending"
    and d: "dispatch d w (pending ! i) = (Inr evs, w1)" and s: "stop_of evs = None"
  shows "run_inv r l base hs w1 ((take i pending @ drop (Suc i) pending) @ evs)"
proof -
  from inv obtain mid where c: "ctx_chat_history w = Some r" "ctx_llm w = Some l"
    and h: "heap w r = base @ mid" "\<forall>m \<in> set mid. tool_round_message l m"
    and o: "\<forall>r'. r' \<noteq> r \<longrightarrow> heap w r' = hs r'"
    and p: "\<forall>e \<in> set pending. in_round e"
    and b: "\<forall>m \<in> set (events_buffer w). role m = Tool"
    unfolding run_inv_def by blast
  have rest: "\<forall>e \<in> set (take i pending @ drop (Suc i) pending). in_round e"
    using p set_remove_nth_subset[of i pending] by blast
  have e: "in_round (pending ! i)" using p i by simp
  show ?thesis
  proof (cases "pending ! i")
    case (StartEvent ev)
    then show ?thesis using e by simp
  next
    case LLMCallEvent
    then have sp: "speak_with_agent w = (Inr evs, w1)" using d by simp
    from speak_with_agent_continues[OF sp s c]
    obtain m where m: "tool_round_message l m" "heap w1 = (heap w)(r := heap w r @ [m])"
      "ctx_chat_history w1 = Some r" "ctx_llm w1 = Some l"
      "events_buffer w1 = events_buffer w" "\<forall>e \<in> set evs. in_round e"
      by blast
    have "heap w1 r = base @ (mid @ [m])" using m(2) h(1) by simp
    moreover have "\<forall>x \<in> set (mid @ [m]). tool_round_message l x" using h(2) m(1) by simp
    ultimately have "\<exists>mid'. heap w1 r = base @ mid' \<and> (\<forall>x \<in> set mid'. tool_round_message l x)"
      by blast
    then show ?thesis
      unfolding run_inv_def using m rest o b by auto
  next
    case (ToolCallEvent tc ts)
    then have ht: "handle_tool_call w tc ts = (Inr evs, w1)" using d by simp
    from handle_tool_call_returns[OF ht]
    obtain m where m: "evs = [ToolCallResultEvent m]" "role m = Tool" "heap w1 = heap w"
      "w1 = w\<lparr>stream := stream w1\<rparr>"
      by blast
    have "ctx_chat_history w1 = Some r" "ctx_llm w1 = Some l"
      "events_buffer w1 = events_buffer w"
      by (subst m(4), simp add: c)+
    then show ?thesis
      unfolding run_inv_def using m(1,2,3) rest o b h by auto
  next
    case (ToolCallResultEvent m)
    then have ag: "aggregate_tool_results w m = (Inr evs, w1)" using d by simp
    have rm: "role m = Tool" using e ToolCallResultEvent by simp
    have sub: "\<And>S. S \<subseteq> insert m (set (events_buffer w)) \<Longrightarrow> \<forall>x \<in> S. role x = Tool"
      using rm b by auto
    from aggregate_cases[OF ag]
    consider (wait) "evs = []" "w1 = w\<lparr>events_buffer := events_buffer w1\<rparr>"
        "set (events_buffer w1) \<subseteq> insert m (set (events_buffer w))"
      | (full) r' rs where "evs = [LLMCallEvent]" "ctx_chat_history w = Some r'"
        "set rs \<subseteq> insert m (set (events_buffer w))"
        "set (events_buffer w1) \<subseteq> insert m (set (events_buffer w))"
        "w1 = w\<lparr>events_buffer := events_buffer w1, heap := (heap w)(r' := heap w r' @ rs)\<rparr>"
      by auto
    then show ?thesis
    proof cases
      case wait
      have "ctx_chat_history w1 = Some r" "ctx_llm w1 = Some l" "heap w1 = heap w"
        by (subst wait(2), simp add: c)+
      then show ?thesis
        unfolding run_inv_def using wait(1) sub[OF wait(3)] rest o h by auto
    next
      case full
      have r': "r' = r" using full(2) c by simp
      have f: "ctx_chat_history w1 = Some r" "ctx_llm w1 = Some l"
        "heap w1 = (heap w)(r := heap w r @ rs)"
        by (subst full(5), simp add: c r')+
      have "\<forall>x \<in> set rs. tool_round_message l x"
        using sub[OF full(3)] by (simp add: tool_round_message_def)
      then have "heap w1 r = base @ (mid @ rs) \<and> (\<forall>x \<in> set (mid @ rs). tool_round_message l x)"
        using f(3) h by auto
      then have "\<exists>mid'. heap w1 r = base @ mid' \<and> (\<forall>x \<in> set mid'. tool_round_message l x)"
        by blast
      then show ?thesis
        unfolding run_inv_def using f full(1) sub[OF full(4)] rest o by auto
    qed
  next
    case (StopEvent res)
    then show ?thesis using e by simp
  qed
qed

subsection \<open>The chat history when a run has an outcome\<close>

lemma run_loop_post:
  assumes "run_loop fuel sched d w pending = Some (out, w')"
    and "run_inv r l base hs w pending"
  shows "run_post r l base hs out w'"
proof (rule run_loop_induct[OF assms(1), where I = "run_inv r l base hs"
      and Q = "run_post r l base hs"])
  show "run_inv r l base hs w pending" by (rule assms(2))
next
  fix w pending i evs w1
  assume "run_inv r l base hs w pending" "i < length pending"
    "dispatch d w (pending ! i) = (Inr evs, w1)" "stop_of evs = None"
  then show "run_inv r l base hs w1 ((take i pending @ drop (Suc i) pending) @ evs)"
    by (rule dispatch_keeps_inv)
next
  fix w
  assume "run_inv r l base hs w []"
  then show "run_post r l base hs Stalled w"
    unfolding run_inv_def run_post_def by auto
next
  fix w pending i e w1
  assume inv: "run_inv r l base hs w pending" and i: "i < length pending"
    and d: "dispatch d w (pending ! i) = (Inl e, w1)"
  have "in_round (pending ! i)" using inv i unfolding run_inv_def by simp
  then have "heap w1 = heap w" using dispatch_raises_heap[OF d] by simp
  then show "run_post r l base hs (Failed e) w1"
    using inv unfolding run_inv_def run_post_def by auto
next
  fix w pending i evs w1 res
  assume inv: "run_inv r l base hs w pending" and i: "i < length pending"
    and d: "dispatch d w (pending ! i) = (Inr evs, w1)" and s: "stop_of evs = Some res"
  from inv obtain mid where c: "ctx_chat_history w = Some r" "ctx_llm w = Some l"
    and h: "heap w r = base @ mid" "\<forall>m \<in> set mid. tool_round_message l m"
    and o: "\<forall>r'. r' \<noteq> r \<longrightarrow> heap w r' = hs r'"
    unfolding run_inv_def by blast
  have e: "in_round (pending ! i)" using inv i unfolding run_inv_def by simp
  have sp: "speak_with_agent w = (Inr evs, w1)"
  proof (cases "pending ! i")
    case LLMCallEvent
    then show ?thesis using d by simp
  next
    case (ToolCallEvent tc ts)
    then have "\<exists>m. evs = [ToolCallResultEvent m]"
      using d handle_tool_call_returns[of w tc ts evs w1] by auto
    then show ?thesis using s by auto
  next
    case (ToolCallResultEvent m)
    then have "evs = [] \<or> evs = [LLMCallEvent]"
      using d aggregate_cases[of w m "Inr evs" w1] by auto
    then show ?thesis using s by auto
  qed (use e in simp_all)
  from speak_with_agent_stops[OF sp s c]
  obtain fin where f: "final_answer l fin" "heap w1 = (heap w)(r := heap w r @ [fin])"
    "res = \<lparr>response = content fin, chat_history = r\<rparr>"
    by blast
  have "heap w1 r = base @ mid @ [fin]" using f(2) h(1) by simp
  then show "run_post r l base hs (Completed res) w1"
    unfolding run_post_def using f h(2) o by auto
qed

lemma setup_step_Inr:
  assumes "setup_step d w ev = (Inr evs, w1)"
  shows "\<exists>um l. ev_user_msg ev = Some (Some um) \<and> ev_get (ev_llm ev) (Some d) = Some l
           \<and> is_function_calling_model l \<and> ev_chat_history ev \<noteq> Some None"
proof -
  have "\<not> input_missing ev" and "is_function_calling_model (supplied_llm d ev)"
    using setup_step_result[of d w ev] assms by (auto split: if_splits)
  then show ?thesis
    by (cases "ev_user_msg ev"; cases "ev_llm ev")
       (auto simp: input_missing_def supplied_llm_def ev_get_def split: option.splits)
qed

lemma setup_step_Inl:
  assumes "setup_step d w ev = (Inl e, w1)" and "ev_chat_history ev \<noteq> None"
  shows "w1 = w"
  using assms
  by (cases "ev_user_msg ev"; cases "ev_llm ev"; cases "ev_chat_history ev")
     (auto simp: setup_step_def ev_get_def Let_def split: option.splits if_splits)

text \<open>What a run that has an outcome has done.\<close>

lemma run_outcome:
  assumes "run fuel sched d h n ev = Some (out, w')"
  shows "(\<exists>e. out = Failed e \<and> isl (fst (setup_step d (init_world h n) ev))
            \<and> w' = snd (setup_step d (init_world h n) ev))
       \<or> (\<exists>um l r. ev_user_msg ev = Some (Some um) \<and> ev_get (ev_llm ev) (Some d) = Some l
            \<and> ev_get (ev_chat_history ev) (Some n) = Some r
            \<and> run_post r l
                 ((if ev_chat_history ev = None then [] else h r) @ [user_message um])
                 (if ev_chat_history ev = None then h(n := []) else h) out w')"
proof (cases fuel)
  case 0
  then show ?thesis using assms by (simp add: run_def)
next
  case (Suc k)
  obtain x w1 where st: "setup_step d (init_world h n) ev = (x, w1)"
    by (cases "setup_step d (init_world h n) ev")
  show ?thesis
  proof (cases x)
    case (Inl e)
    then have "out = Failed e" and "w' = w1"
      using assms Suc st by (simp_all add: run_Suc_start)
    then show ?thesis using st Inl by (intro disjI1) simp
  next
    case (Inr evs)
    then have rl: "run_loop k sched d w1 [LLMCallEvent] = Some (out, w')"
      using assms Suc st by (simp add: run_Suc_start)
    obtain um l where v: "ev_user_msg ev = Some (Some um)"
      "ev_get (ev_llm ev) (Some d) = Some l" "is_function_calling_model l"
      "ev_chat_history ev \<noteq> Some None"
      using setup_step_Inr st Inr by blast
    from setup_step_ok[OF v, of "init_world h n"] st
    obtain r where r: "ev_get (ev_chat_history ev) (Some n) = Some r"
      and c: "ctx_llm w1 = Some l" "ctx_chat_history w1 = Some r"
        "events_buffer w1 = []"
        "heap w1 r = (if ev_chat_history ev = None then [] else h r)
                @ [\<lparr>role = User, content = um, additional_kwargs = []\<rparr>]"
        "\<forall>r'. r' \<noteq> r \<longrightarrow> heap w1 r' = h r'"
      by (auto simp: init_world_def)
    have hs: "\<forall>r'. r' \<noteq> r \<longrightarrow>
                heap w1 r' = (if ev_chat_history ev = None then h(n := []) else h) r'"
      using c(5) r by (auto simp: ev_get_def)
    have "run_inv r l ((if ev_chat_history ev = None then [] else h r) @ [user_message um])
            (if ev_chat_history ev = None then h(n := []) else h) w1 [LLMCallEvent]"
      unfolding run_inv_def using c(1-4) hs
      by (auto simp: user_message_def intro: exI[of _ "[]"])
    from run_loop_post[OF rl this] v r show ?thesis by blast
  qed
qed

subsection \<open>The notebook's first run\<close>

text \<open>
  With the scripted client the model reproduces the notebook's output: one tool call,
  the progress line and the final answer.
\<close>

lemma example_run_eval:
  "(case run 5 (\<lambda>_ _. 0) no_tools_llm (\<lambda>_. []) 1 (example_start ''add_two_numbers'') of
      Some (Completed res, w') \<Rightarrow>
        res = \<lparr>response = ''10 + 10 is 20.'', chat_history = 0\<rparr>
        \<and> heap w' 0 = [user_message ''What is 10 + 10?'', tool_request, result_a,
             \<lparr>role = Assistant, content = ''10 + 10 is 20.'', additional_kwargs = []\<rparr>]
        \<and> stream w' = [''Tool add_two_numbers called with {'' @ [QUOTE] @ ''a'' @ [QUOTE]
             @ '': 10, '' @ [QUOTE] @ ''b'' @ [QUOTE] @ '': 10} returned 20'']
    | _ \<Rightarrow> False)"
  by code_simp

lemma example_run:
  "\<exists>w'. run 5 (\<lambda>_ _. 0) no_tools_llm (\<lambda>_. []) 1 (example_start ''add_two_numbers'') =
           Some (Completed \<lparr>response = ''10 + 10 is 20.'', chat_history = 0\<rparr>, w')
        \<and> heap w' 0 = [user_message ''What is 10 + 10?'', tool_request, result_a,
             \<lparr>role = Assistant, content = ''10 + 10 is 20.'', additional_kwargs = []\<rparr>]
        \<and> stream w' = [''Tool add_two_numbers called with {'' @ [QUOTE] @ ''a'' @ [QUOTE]
             @ '': 10, '' @ [QUOTE] @ ''b'' @ [QUOTE] @ '': 10} returned 20'']"
proof (cases "run 5 (\<lambda>_ _. 0) no_tools_llm (\<lambda>_. []) 1 (example_start ''add_two_numbers'')")
  case None
  then show ?thesis using example_run_eval by simp
next
  case (Some p)
  obtain out w' where p: "p = (out, w')" by (cases p)
  show ?thesis
  proof (cases out)
    case (Completed res)
    then show ?thesis using example_run_eval Some p by simp
  next
    case (Failed e)
    then show ?thesis using example_run_eval Some p by simp
  next
    case Stalled
    then show ?thesis using example_run_eval Some p by simp
  qed
qed

subsection \<open>How a run completes\<close>

lemma dispatch_stops:
  assumes "dispatch d w e = (Inr evs, w1)" and "stop_of evs = Some res"
  shows "e = LLMCallEvent \<and> evs = [StopEvent res]
       \<and> (\<exists>l r m. ctx_llm w = Some l \<and> ctx_chat_history w = Some r \<and> final_answer l m
             \<and> heap w1 = (heap w)(r := heap w r @ [m])
             \<and> res = \<lparr>response = content m, chat_history = r\<rparr>)"
proof (cases e)
  case (StartEvent ev)
  then have "evs = [LLMCallEvent]" using assms(1) setup_step_events by auto
  then show ?thesis using assms(2) by simp
next
  case LLMCallEvent
  then have sp: "speak_with_agent w = (Inr evs, w1)" using assms(1) by simp
  then obtain l r where c: "ctx_chat_history w = Some r" "ctx_llm w = Some l"
    using speak_with_agent_Inr by blast
  from speak_with_agent_stops[OF sp assms(2) c] c LLMCallEvent show ?thesis by blast
next
  case (ToolCallEvent tc ts)
  then have "\<exists>m. evs = [ToolCallResultEvent m]"
    using assms(1) handle_tool_call_returns[of w tc ts evs w1] by auto
  then show ?thesis using assms(2) by auto
next
  case (ToolCallResultEvent m)
  then have "evs = [] \<or> evs = [LLMCallEvent]"
    using assms(1) aggregate_cases[of w m "Inr evs" w1] by auto
  then show ?thesis using assms(2) by auto
next
  case (StopEvent r)
  then show ?thesis using assms by auto
qed

text \<open>
  C4. When the response of the model holds no tool call, \<^verbatim>\<open>speak_with_agent\<close> appends
  the response's message to the chat history and emits one event, the \<^verbatim>\<open>StopEvent\<close>
  whose result holds the content of that message and the chat history: no
  \<^verbatim>\<open>ToolCallEvent\<close> is sent, and nothing else of the state changes but the record of
  the call to the model. No other step, and no other branch of this one, emits a
  \<^verbatim>\<open>StopEvent\<close>; so a run that completes has, as the last message of the chat history
  it returns, a response of the model without tool calls, whose content is the
  response of the result. (A run can also end with an exception, which returns no
  result.)
\<close>

theorem zero_tool_calls_stop_the_run:
  assumes "ctx_agent_config w = Some (Some cfg)" and "system_prompt cfg = Some sp"
    and "ctx_chat_history w = Some r" and "ctx_llm w = Some l"
    and "ctx_user_state w = Some (Some us)"
    and "resp = achat_with_tools l (tools cfg) (system_message sp us # heap w r)"
    and "get_tool_calls_from_response l resp = []"
  shows "speak_with_agent w =
           (Inr [StopEvent \<lparr>response = content (message resp), chat_history = r\<rparr>],
            w\<lparr>llm_calls := llm_calls w @ [system_message sp us # heap w r],
              heap := (heap w)(r := heap w r @ [message resp])\<rparr>)
       \<and> (\<forall>d' w0 e evs w1 res. dispatch d' w0 e = (Inr evs, w1) \<and> stop_of evs = Some res \<longrightarrow>
             e = LLMCallEvent \<and> evs = [StopEvent res]
             \<and> (\<exists>l' r' m. ctx_llm w0 = Some l' \<and> ctx_chat_history w0 = Some r'
                   \<and> final_answer l' m \<and> heap w1 = (heap w0)(r' := heap w0 r' @ [m])
                   \<and> res = \<lparr>response = content m, chat_history = r'\<rparr>))
       \<and> (\<forall>fuel sched d' h n ev res w'.
             run fuel sched d' h n ev = Some (Completed res, w') \<longrightarrow>
             (\<exists>l' fin. ev_get (ev_llm ev) (Some d') = Some l' \<and> final_answer l' fin
                \<and> heap w' (chat_history res) \<noteq> [] \<and> last (heap w' (chat_history res)) = fin
                \<and> response res = content fin))"
proof (intro conjI allI impI)
  show "speak_with_agent w =
           (Inr [StopEvent \<lparr>response = content (message resp), chat_history = r\<rparr>],
            w\<lparr>llm_calls := llm_calls w @ [system_message sp us # heap w r],
              heap := (heap w)(r := heap w r @ [message resp])\<rparr>)"
    using speak_with_agent_ok[OF assms(1-6) refl] assms(7) by simp
next
  fix d' w0 e evs w1 res
  assume a: "dispatch d' w0 e = (Inr evs, w1) \<and> stop_of evs = Some res"
  note ds = dispatch_stops[of d' w0 e evs w1 res]
  show "e = LLMCallEvent" using a ds by blast
  show "evs = [StopEvent res]" using a ds by blast
  show "\<exists>l' r' m. ctx_llm w0 = Some l' \<and> ctx_chat_history w0 = Some r'
                   \<and> final_answer l' m \<and> heap w1 = (heap w0)(r' := heap w0 r' @ [m])
                   \<and> res = \<lparr>response = content m, chat_history = r'\<rparr>"
    using a ds by blast
next
  fix fuel sched d' h n ev res w'
  assume "run fuel sched d' h n ev = Some (Completed res, w')"
  from run_outcome[OF this]
  obtain um l' r' where l': "ev_get (ev_llm ev) (Some d') = Some l'"
    and post: "run_post r' l'
                 ((if ev_chat_history ev = None then [] else h r') @ [user_message um])
                 (if ev_chat_history ev = None then h(n := []) else h) (Completed res) w'"
    by auto
  from post obtain mid fin where
    "heap w' r' = ((if ev_chat_history ev = None then [] else h r') @ [user_message um])
                    @ mid @ [fin]"
    "final_answer l' fin" "res = \<lparr>response = content fin, chat_history = r'\<rparr>"
    unfolding run_post_def by auto
  then show "\<exists>l' fin. ev_get (ev_llm ev) (Some d') = Some l' \<and> final_answer l' fin
                \<and> heap w' (chat_history res) \<noteq> [] \<and> last (heap w' (chat_history res)) = fin
                \<and> response res = content fin"
    using l' by auto
qed

theorem zero_tool_calls_stop_the_run_witness:
  "ctx_agent_config answered_world = Some (Some example_config)
   \<and> system_prompt example_config \<noteq> None
   \<and> ctx_chat_history answered_world = Some 0
   \<and> ctx_llm answered_world = Some (scripted_llm ''add_two_numbers'')
   \<and> ctx_user_state answered_world = Some (Some [(''user_name'', PStr ''Logan'')])
   \<and> fst (speak_with_agent answered_world) =
       Inr [StopEvent \<lparr>response = ''10 + 10 is 20.'', chat_history = 0\<rparr>]
   \<and> heap (snd (speak_with_agent answered_world)) 0 =
       heap answered_world 0
         @ [\<lparr>role = Assistant, content = ''10 + 10 is 20.'', additional_kwargs = []\<rparr>]
   \<and> (\<exists>m. final_answer (scripted_llm ''add_two_numbers'') m \<and> content m = ''10 + 10 is 20.'')
   \<and> (\<exists>w'. run 5 (\<lambda>_ _. 0) no_tools_llm (\<lambda>_. []) 1 (example_start ''add_two_numbers'') =
              Some (Completed \<lparr>response = ''10 + 10 is 20.'', chat_history = 0\<rparr>, w')
          \<and> content (last (heap w' 0)) = ''10 + 10 is 20.'')"
proof -
  obtain sp where sp: "system_prompt example_config = Some sp"
    by (simp add: example_config_def)
  let ?us = "[(''user_name'', PStr ''Logan'')]"
  let ?l = "scripted_llm ''add_two_numbers''"
  let ?resp = "achat_with_tools ?l (tools example_config)
                 (system_message sp ?us # heap answered_world 0)"
  let ?res = "\<lparr>response = ''10 + 10 is 20.'', chat_history = 0\<rparr>"
  have h: "ctx_agent_config answered_world = Some (Some example_config)"
    "ctx_chat_history answered_world = Some 0"
    "ctx_llm answered_world = Some ?l"
    "ctx_user_state answered_world = Some (Some ?us)"
    by (simp_all add: answered_world_def ready_world_def init_world_def)
  have m: "message ?resp =
             \<lparr>role = Assistant, content = ''10 + 10 is 20.'', additional_kwargs = []\<rparr>"
    by (simp add: scripted_llm_def answered_world_def result_a_def)
  have z: "get_tool_calls_from_response ?l ?resp = []"
    by (simp add: scripted_llm_def answered_world_def result_a_def)
  note t = zero_tool_calls_stop_the_run[OF h(1) sp h(2) h(3) h(4) refl z]
  from t[THEN conjunct1]
  have s: "speak_with_agent answered_world =
             (Inr [StopEvent ?res],
              answered_world\<lparr>llm_calls := llm_calls answered_world
                   @ [system_message sp ?us # heap answered_world 0],
                 heap := (heap answered_world)(0 := heap answered_world 0 @ [message ?resp])\<rparr>)"
    using m by simp
  then have c1: "fst (speak_with_agent answered_world) = Inr [StopEvent ?res]"
    "heap (snd (speak_with_agent answered_world)) 0 =
       heap answered_world 0
         @ [\<lparr>role = Assistant, content = ''10 + 10 is 20.'', additional_kwargs = []\<rparr>]"
    using m by simp_all
  have "dispatch no_tools_llm answered_world LLMCallEvent =
          (Inr [StopEvent ?res],
           answered_world\<lparr>llm_calls := llm_calls answered_world
                @ [system_message sp ?us # heap answered_world 0],
              heap := (heap answered_world)(0 := heap answered_world 0 @ [message ?resp])\<rparr>)
        \<and> stop_of [StopEvent ?res] = Some ?res"
    using s by simp
  from t[THEN conjunct2, THEN conjunct1, rule_format, OF this]
  obtain l' m' where "ctx_llm answered_world = Some l'" "final_answer l' m'"
    "?res = \<lparr>response = content m', chat_history = 0\<rparr>"
    by auto
  then have c2: "\<exists>m. final_answer ?l m \<and> content m = ''10 + 10 is 20.''"
    using h(3) by auto
  obtain w' where r: "run 5 (\<lambda>_ _. 0) no_tools_llm (\<lambda>_. []) 1 (example_start ''add_two_numbers'')
        = Some (Completed ?res, w')"
    using example_run by blast
  from t[THEN conjunct2, THEN conjunct2, rule_format, OF r]
  have "content (last (heap w' 0)) = ''10 + 10 is 20.''"
    by auto
  then have c3: "\<exists>w'. run 5 (\<lambda>_ _. 0) no_tools_llm (\<lambda>_. []) 1
                        (example_start ''add_two_numbers'') = Some (Completed ?res, w')
          \<and> content (last (heap w' 0)) = ''10 + 10 is 20.''"
    using r by blast
  show ?thesis using h sp c1 c2 c3 by simp
qed

subsection \<open>The messages a completed run has appended\<close>

lemma tool_round_not_final:
  assumes "tool_round_message l m" and "final_answer l fin"
    and "\<forall>ts msgs. role (message (achat_with_tools l ts msgs)) = Assistant"
  shows "m \<noteq> fin"
proof
  assume eq: "m = fin"
  obtain ts msgs where f: "fin = message (achat_with_tools l ts msgs)"
    "get_tool_calls_from_response l (achat_with_tools l ts msgs) = []"
    using assms(2) unfolding final_answer_def by blast
  have "role fin = Assistant" using f(1) assms(3) by simp
  then have "role m \<noteq> Tool" using eq by simp
  then obtain ts' msgs' where t: "m = message (achat_with_tools l ts' msgs')"
    "get_tool_calls_from_response l (achat_with_tools l ts' msgs') \<noteq> []"
    using assms(1) unfolding tool_round_message_def by blast
  have "message (achat_with_tools l ts' msgs') = message (achat_with_tools l ts msgs)"
    using t(1) f(1) eq by simp
  then have "achat_with_tools l ts' msgs' = achat_with_tools l ts msgs"
    by simp
  then show False using t(2) f(2) by simp
qed

lemma tool_round_role:
  assumes "tool_round_message l m"
    and "\<forall>ts msgs. role (message (achat_with_tools l ts msgs)) = Assistant"
  shows "role m = Tool \<or> role m = Assistant"
  using assms unfolding tool_round_message_def by auto

lemma final_answer_role:
  assumes "final_answer l fin"
    and "\<forall>ts msgs. role (message (achat_with_tools l ts msgs)) = Assistant"
  shows "role fin = Assistant"
  using assms unfolding final_answer_def by auto

lemma tool_round_not_user:
  assumes "tool_round_message l m"
    and "\<forall>ts msgs. role (message (achat_with_tools l ts msgs)) = Assistant"
  shows "m \<noteq> user_message um"
proof
  assume "m = user_message um"
  then have "role m = User" by (simp add: user_message_def)
  then show False using tool_round_role[OF assms] by simp
qed

lemma final_not_user:
  assumes "final_answer l fin"
    and "\<forall>ts msgs. role (message (achat_with_tools l ts msgs)) = Assistant"
  shows "fin \<noteq> user_message um"
proof
  assume "fin = user_message um"
  then have "role fin = User" by (simp add: user_message_def)
  then show False using final_answer_role[OF assms] by simp
qed

text \<open>
  C7. When a run completes, the chat history it returns is the one it was given (the
  caller's list, or the new empty list when none was passed), followed by the user
  message that \<^verbatim>\<open>setup\<close> built from \<^verbatim>\<open>user_msg\<close>, then the messages of the tool
  rounds (responses of the model that ask for tool calls, and tool results), then
  the final answer, a response of the model without tool calls, whose content is the
  response of the result. So the user message stands before the final answer. Each
  of the two is appended once: when the responses of the model have the role
  \<^verbatim>\<open>assistant\<close>, each occurs exactly once among the appended messages.
\<close>

theorem completed_run_chat_history:
  assumes "run fuel sched d h n ev = Some (Completed res, w')"
  shows "\<exists>um l mid fin.
           ev_user_msg ev = Some (Some um) \<and> ev_get (ev_llm ev) (Some d) = Some l
         \<and> ev_get (ev_chat_history ev) (Some n) = Some (chat_history res)
         \<and> heap w' (chat_history res) =
             (if ev_chat_history ev = None then [] else h (chat_history res))
               @ user_message um # mid @ [fin]
         \<and> response res = content fin \<and> final_answer l fin
         \<and> (\<forall>m \<in> set mid. tool_round_message l m)
         \<and> ((\<forall>ts msgs. role (message (achat_with_tools l ts msgs)) = Assistant) \<longrightarrow>
               count_list (user_message um # mid @ [fin]) (user_message um) = 1
               \<and> count_list (user_message um # mid @ [fin]) fin = 1)"
proof -
  from run_outcome[OF assms]
  obtain um l r where v: "ev_user_msg ev = Some (Some um)"
    "ev_get (ev_llm ev) (Some d) = Some l" "ev_get (ev_chat_history ev) (Some n) = Some r"
    and post: "run_post r l
                 ((if ev_chat_history ev = None then [] else h r) @ [user_message um])
                 (if ev_chat_history ev = None then h(n := []) else h) (Completed res) w'"
    by auto
  from post obtain mid fin where p:
    "heap w' r = ((if ev_chat_history ev = None then [] else h r) @ [user_message um])
                    @ mid @ [fin]"
    "\<forall>m \<in> set mid. tool_round_message l m"
    "final_answer l fin" "res = \<lparr>response = content fin, chat_history = r\<rparr>"
    unfolding run_post_def by auto
  have r: "chat_history res = r" and resp: "response res = content fin"
    using p(4) by simp_all
  have cnt: "count_list (user_message um # mid @ [fin]) (user_message um) = 1
               \<and> count_list (user_message um # mid @ [fin]) fin = 1"
    if roles: "\<forall>ts msgs. role (message (achat_with_tools l ts msgs)) = Assistant"
  proof -
    have a: "user_message um \<notin> set mid"
      using p(2) tool_round_not_user[OF _ roles] by blast
    have b: "fin \<notin> set mid"
      using p(2) tool_round_not_final[OF _ p(3) roles] by blast
    have c: "fin \<noteq> user_message um"
      using final_not_user[OF p(3) roles] .
    have "count_list mid (user_message um) = 0" and "count_list mid fin = 0"
      using a b by (simp_all add: count_list_0_iff)
    then show ?thesis using c by auto
  qed
  show ?thesis
    using v(1,2) v(3)[folded r] p(1)[folded r] resp p(3) p(2) cnt
    by (intro exI[of _ um] exI[of _ l] exI[of _ mid] exI[of _ fin]) simp
qed

theorem completed_run_chat_history_witness:
  "\<exists>w'. run 5 (\<lambda>_ _. 0) no_tools_llm (\<lambda>_. []) 1 (example_start ''add_two_numbers'') =
           Some (Completed \<lparr>response = ''10 + 10 is 20.'', chat_history = 0\<rparr>, w')
     \<and> heap w' 0 = [user_message ''What is 10 + 10?'', tool_request, result_a,
          \<lparr>role = Assistant, content = ''10 + 10 is 20.'', additional_kwargs = []\<rparr>]
     \<and> count_list (heap w' 0) (user_message ''What is 10 + 10?'') = 1
     \<and> count_list (heap w' 0)
          \<lparr>role = Assistant, content = ''10 + 10 is 20.'', additional_kwargs = []\<rparr> = 1"
proof -
  let ?fin = "\<lparr>role = Assistant, content = ''10 + 10 is 20.'', additional_kwargs = []\<rparr>"
  let ?ev = "example_start ''add_two_numbers''"
  obtain w' where r: "run 5 (\<lambda>_ _. 0) no_tools_llm (\<lambda>_. []) 1 ?ev
        = Some (Completed \<lparr>response = ''10 + 10 is 20.'', chat_history = 0\<rparr>, w')"
    and h: "heap w' 0 = [user_message ''What is 10 + 10?'', tool_request, result_a, ?fin]"
    using example_run by blast
  from completed_run_chat_history[OF r]
  obtain um l mid fin where f: "ev_user_msg ?ev = Some (Some um)"
    "ev_get (ev_llm ?ev) (Some no_tools_llm) = Some l"
    "heap w' (chat_history \<lparr>response = ''10 + 10 is 20.'', chat_history = 0\<rparr>) =
       (if ev_chat_history ?ev = None then []
        else (\<lambda>_. []) (chat_history \<lparr>response = ''10 + 10 is 20.'', chat_history = 0\<rparr>))
         @ user_message um # mid @ [fin]"
    "(\<forall>ts msgs. role (message (achat_with_tools l ts msgs)) = Assistant) \<longrightarrow>
       count_list (user_message um # mid @ [fin]) (user_message um) = 1
       \<and> count_list (user_message um # mid @ [fin]) fin = 1"
    by blast
  have um: "um = ''What is 10 + 10?''" and l: "l = scripted_llm ''add_two_numbers''"
    using f(1,2) by (simp_all add: example_start_def ev_get_def)
  have roles: "\<forall>ts msgs. role (message (achat_with_tools l ts msgs)) = Assistant"
    by (simp add: l scripted_llm_def)
  have a: "heap w' 0 = user_message um # mid @ [fin]"
    using f(3) by (simp add: example_start_def)
  then have "mid @ [fin] = [tool_request, result_a] @ [?fin]" using h by simp
  then have "fin = ?fin" by (metis append1_eq_conv)
  then have "count_list (heap w' 0) (user_message ''What is 10 + 10?'') = 1
             \<and> count_list (heap w' 0) ?fin = 1"
    using f(4) roles a um by simp
  then show ?thesis using r h by blast
qed

subsection \<open>The caller's chat history\<close>

lemma aggregate_heap:
  assumes "aggregate_tool_results w m = (x, w1)"
  shows "heap w1 = heap w \<or> (\<exists>r rs. heap w1 = (heap w)(r := heap w r @ rs))"
proof -
  from aggregate_cases[OF assms]
  consider (a) "heap w1 = heap w"
    | (b) "w1 = w\<lparr>events_buffer := events_buffer w1\<rparr>"
    | (c) r rs where
        "w1 = w\<lparr>events_buffer := events_buffer w1, heap := (heap w)(r := heap w r @ rs)\<rparr>"
    by blast
  then show ?thesis
  proof cases
    case a
    then show ?thesis by simp
  next
    case b
    have "heap w1 = heap (w\<lparr>events_buffer := events_buffer w1\<rparr>)"
      by (rule arg_cong[OF b])
    then show ?thesis by simp
  next
    case c
    have "heap w1 = heap (w\<lparr>events_buffer := events_buffer w1,
                            heap := (heap w)(r := heap w r @ rs)\<rparr>)"
      by (rule arg_cong[OF c])
    then show ?thesis by auto
  qed
qed

lemma dispatch_extends:
  assumes "dispatch d w e = (x, w1)"
    and "\<forall>ev. e = StartEvent ev \<longrightarrow> ev_chat_history ev \<noteq> None"
  shows "prefix (heap w r') (heap w1 r')"
proof (cases e)
  case (StartEvent ev)
  then have st: "setup_step d w ev = (x, w1)" and ch: "ev_chat_history ev \<noteq> None"
    using assms by simp_all
  show ?thesis
  proof (cases x)
    case (Inl err)
    then show ?thesis using st ch setup_step_Inl by blast
  next
    case (Inr evs)
    then obtain um l where v: "ev_user_msg ev = Some (Some um)"
      "ev_get (ev_llm ev) (Some d) = Some l" "is_function_calling_model l"
      "ev_chat_history ev \<noteq> Some None"
      using setup_step_Inr st by blast
    from setup_step_ok[OF v, of w] st ch
    obtain r where "heap w1 r = heap w r @ [\<lparr>role = User, content = um, additional_kwargs = []\<rparr>]"
      "\<forall>r'. r' \<noteq> r \<longrightarrow> heap w1 r' = heap w r'"
      by auto
    then show ?thesis by (cases "r' = r") auto
  qed
next
  case LLMCallEvent
  then have sp: "speak_with_agent w = (x, w1)" using assms by simp
  show ?thesis
  proof (cases x)
    case (Inl err)
    then show ?thesis using sp speak_with_agent_Inl by blast
  next
    case (Inr evs)
    then obtain cfg sp' r l us where c: "ctx_agent_config w = Some (Some cfg)"
      "system_prompt cfg = Some sp'" "ctx_chat_history w = Some r" "ctx_llm w = Some l"
      "ctx_user_state w = Some (Some us)"
      using speak_with_agent_Inr sp by blast
    have "heap w1 = (heap w)(r := heap w r @
            [message (achat_with_tools l (tools cfg) (system_message sp' us # heap w r))])"
      using speak_with_agent_ok[OF c refl refl] sp by (auto split: if_splits)
    then show ?thesis by (cases "r' = r") auto
  qed
next
  case (ToolCallEvent tc ts)
  then have ht: "handle_tool_call w tc ts = (x, w1)" using assms by simp
  have "heap w1 = heap w"
    using ht handle_tool_call_Inl[of w tc ts _ w1] handle_tool_call_returns[of w tc ts _ w1]
    by (cases x) auto
  then show ?thesis by simp
next
  case (ToolCallResultEvent m)
  then have "aggregate_tool_results w m = (x, w1)" using assms by simp
  from aggregate_heap[OF this] show ?thesis by (auto simp: fun_upd_def)
next
  case (StopEvent res)
  then show ?thesis using assms by simp
qed

text \<open>
  C10. Take a run that was given the list \<open>r\<close> as chat history. Whatever its outcome
  (a result, or the exception of a step), the content the caller gave is a prefix of
  the list at \<open>r\<close> afterwards, in its order, and no other list has changed; when the
  run completes, the chat history of its result is the list \<open>r\<close> itself, extended in
  place. Every step only appends: after any step (the creation of the default empty
  list by \<^verbatim>\<open>setup\<close> aside), each list is as before or has messages added at its end.
\<close>

theorem caller_chat_history_preserved:
  assumes "run fuel sched d h n ev = Some (out, w')"
    and "ev_chat_history ev = Some (Some r)"
  shows "prefix (h r) (heap w' r)
       \<and> (\<forall>r'. r' \<noteq> r \<longrightarrow> heap w' r' = h r')
       \<and> (\<forall>res. out = Completed res \<longrightarrow> chat_history res = r)
       \<and> (\<forall>w e x w1 r'.
             dispatch d w e = (x, w1)
             \<and> (\<forall>ev'. e = StartEvent ev' \<longrightarrow> ev_chat_history ev' \<noteq> None)
             \<longrightarrow> prefix (heap w r') (heap w1 r'))"
proof -
  have step: "\<forall>w e x w1 r'.
             dispatch d w e = (x, w1)
             \<and> (\<forall>ev'. e = StartEvent ev' \<longrightarrow> ev_chat_history ev' \<noteq> None)
             \<longrightarrow> prefix (heap w r') (heap w1 r')"
    using dispatch_extends by blast
  from run_outcome[OF assms(1)]
  consider (early) e where "out = Failed e" "w' = snd (setup_step d (init_world h n) ev)"
      "isl (fst (setup_step d (init_world h n) ev))"
    | (loop) um l r0 where "ev_get (ev_chat_history ev) (Some n) = Some r0"
        "run_post r0 l ((if ev_chat_history ev = None then [] else h r0) @ [user_message um])
           (if ev_chat_history ev = None then h(n := []) else h) out w'"
    by blast
  then have "prefix (h r) (heap w' r) \<and> (\<forall>r'. r' \<noteq> r \<longrightarrow> heap w' r' = h r')
       \<and> (\<forall>res. out = Completed res \<longrightarrow> chat_history res = r)"
  proof cases
    case early
    obtain x w1 where st: "setup_step d (init_world h n) ev = (x, w1)"
      by (cases "setup_step d (init_world h n) ev")
    have "heap w' = h"
    proof -
      obtain e' where "x = Inl e'" using st early(3) by (cases x) simp_all
      then have "w1 = init_world h n"
        using setup_step_Inl[of d "init_world h n" ev e' w1] st assms(2) by simp
      then show ?thesis using early(2) st by (simp add: init_world_def)
    qed
    then show ?thesis using early(1) by simp
  next
    case loop
    have r0: "r0 = r" using loop(1) assms(2) by (simp add: ev_get_def)
    have "run_post r l (h r @ [user_message um]) h out w'"
      using loop(2) r0 assms(2) by simp
    then obtain mid where o: "\<forall>r'. r' \<noteq> r \<longrightarrow> heap w' r' = h r'"
      and c: "case out of
                 Completed res \<Rightarrow>
                   (\<exists>fin. heap w' r = (h r @ [user_message um]) @ mid @ [fin] \<and> final_answer l fin
                      \<and> res = \<lparr>response = content fin, chat_history = r\<rparr>)
               | _ \<Rightarrow> heap w' r = (h r @ [user_message um]) @ mid"
      unfolding run_post_def by blast
    have "prefix (h r) (heap w' r)"
      using c by (cases out) auto
    moreover have "\<forall>res. out = Completed res \<longrightarrow> chat_history res = r"
      using c by (cases out) auto
    ultimately show ?thesis using o by simp
  qed
  then show ?thesis using step by blast
qed

lemma earlier_run_eval:
  "(case run 5 (\<lambda>_ _. 0) no_tools_llm earlier_history 1 (example_start ''add_two_numbers'') of
      Some (Completed res, w') \<Rightarrow>
        res = \<lparr>response = ''10 + 10 is 20.'', chat_history = 0\<rparr>
        \<and> heap w' 0 = earlier_history 0 @
             [user_message ''What is 10 + 10?'', tool_request, result_a,
              \<lparr>role = Assistant, content = ''10 + 10 is 20.'', additional_kwargs = []\<rparr>]
    | _ \<Rightarrow> False)"
  by code_simp

theorem caller_chat_history_preserved_witness:
  "ev_chat_history (example_start ''add_two_numbers'') = Some (Some 0)
   \<and> (\<exists>w'. run 5 (\<lambda>_ _. 0) no_tools_llm earlier_history 1 (example_start ''add_two_numbers'') =
              Some (Completed \<lparr>response = ''10 + 10 is 20.'', chat_history = 0\<rparr>, w')
          \<and> prefix (earlier_history 0) (heap w' 0)
          \<and> heap w' 1 = earlier_history 1)
   \<and> prefix (heap answered_world 0)
        (heap (snd (dispatch no_tools_llm answered_world LLMCallEvent)) 0)"
proof -
  let ?run = "run 5 (\<lambda>_ _. 0) no_tools_llm earlier_history 1 (example_start ''add_two_numbers'')"
  have c: "ev_chat_history (example_start ''add_two_numbers'') = Some (Some 0)"
    by (simp add: example_start_def)
  obtain w' where r: "?run = Some (Completed \<lparr>response = ''10 + 10 is 20.'', chat_history = 0\<rparr>, w')"
  proof (cases ?run)
    case None
    then show ?thesis using earlier_run_eval by simp
  next
    case (Some p)
    obtain out w' where p: "p = (out, w')" by (cases p)
    show ?thesis using earlier_run_eval Some p that by (cases out) simp_all
  qed
  note t = caller_chat_history_preserved[OF r c]
  from t have a: "prefix (earlier_history 0) (heap w' 0)" and b: "heap w' 1 = earlier_history 1"
    by simp_all
  obtain x w1 where d: "dispatch no_tools_llm answered_world LLMCallEvent = (x, w1)"
    by (cases "dispatch no_tools_llm answered_world LLMCallEvent")
  have "dispatch no_tools_llm answered_world LLMCallEvent = (x, w1)
        \<and> (\<forall>ev'. LLMCallEvent = StartEvent ev' \<longrightarrow> ev_chat_history ev' \<noteq> None)"
    using d by simp
  from t[THEN conjunct2, THEN conjunct2, THEN conjunct2, rule_format, OF this, of 0]
  have "prefix (heap answered_world 0)
          (heap (snd (dispatch no_tools_llm answered_world LLMCallEvent)) 0)"
    using d by simp
  then show ?thesis using r c a b by blast
qed

subsection \<open>The rounds of a run\<close>

lemma flatten_rounds_snoc:
  "flatten_rounds (rounds @ [(req, results)]) = flatten_rounds rounds @ req # results"
  by (simp add: flatten_rounds_def)

lemma length_remove_nth:
  "i < length xs \<Longrightarrow> length (take i xs @ drop (Suc i) xs) = length xs - 1"
  by simp

lemma speak_with_agent_requests:
  assumes "speak_with_agent w = (Inr evs, w1)" and "stop_of evs = None"
    and "ctx_chat_history w = Some r" and "ctx_llm w = Some l"
  shows "\<exists>ts msgs.
           get_tool_calls_from_response l (achat_with_tools l ts msgs) \<noteq> []
         \<and> length evs = length (get_tool_calls_from_response l (achat_with_tools l ts msgs))
         \<and> (\<forall>e \<in> set evs. tool_event e)
         \<and> ctx_num_tool_calls w1 = Some (length evs)
         \<and> heap w1 = (heap w)(r := heap w r @ [message (achat_with_tools l ts msgs)])
         \<and> ctx_chat_history w1 = Some r \<and> ctx_llm w1 = Some l
         \<and> events_buffer w1 = events_buffer w"
proof -
  obtain cfg sp r' l' us where c: "ctx_agent_config w = Some (Some cfg)"
    "system_prompt cfg = Some sp" "ctx_chat_history w = Some r'" "ctx_llm w = Some l'"
    "ctx_user_state w = Some (Some us)"
    using speak_with_agent_Inr[OF assms(1)] by blast
  have r: "r' = r" and l: "l' = l" using c assms(3,4) by simp_all
  define resp where "resp = achat_with_tools l' (tools cfg) (system_message sp us # heap w r')"
  define calls where "calls = get_tool_calls_from_response l' resp"
  note ok = speak_with_agent_ok[OF c resp_def calls_def]
  have ne: "calls \<noteq> []"
  proof
    assume "calls = []"
    then have "evs = [StopEvent \<lparr>response = content (message resp), chat_history = r'\<rparr>]"
      using ok assms(1) by simp
    then show False using assms(2) by simp
  qed
  then have evs: "evs = map (\<lambda>tool_call. ToolCallEvent tool_call (tools cfg)) calls"
    and w1: "w1 = w\<lparr>llm_calls := llm_calls w @ [system_message sp us # heap w r'],
                    ctx_num_tool_calls := Some (length calls),
                    heap := (heap w)(r' := heap w r' @ [message resp])\<rparr>"
    using ok assms(1) by simp_all
  have "get_tool_calls_from_response l (achat_with_tools l (tools cfg)
          (system_message sp us # heap w r)) \<noteq> []"
    using ne by (simp add: calls_def resp_def r l)
  moreover have "length evs = length (get_tool_calls_from_response l
          (achat_with_tools l (tools cfg) (system_message sp us # heap w r)))"
    using evs by (simp add: calls_def resp_def r l)
  moreover have "\<forall>e \<in> set evs. tool_event e" using evs by simp
  moreover have "ctx_num_tool_calls w1 = Some (length evs)" using evs w1 by simp
  moreover have "heap w1 = (heap w)(r := heap w r @
          [message (achat_with_tools l (tools cfg) (system_message sp us # heap w r))])"
    using w1 by (simp add: resp_def r l)
  moreover have "ctx_chat_history w1 = Some r" "ctx_llm w1 = Some l"
    "events_buffer w1 = events_buffer w"
    using w1 c r l by simp_all
  ultimately show ?thesis by blast
qed

lemma round_invI_model_call:
  assumes "ctx_chat_history w = Some r" and "ctx_llm w = Some l"
    and "\<forall>rd \<in> set rounds. tool_round l rd"
    and "pending = [LLMCallEvent]" and "events_buffer w = []"
    and "heap w r = base @ flatten_rounds rounds"
  shows "round_inv r l base w pending"
  unfolding round_inv_def using assms by blast

lemma round_invI_tools:
  assumes "ctx_chat_history w = Some r" and "ctx_llm w = Some l"
    and "\<forall>rd \<in> set rounds. tool_round l rd"
    and "ctx_num_tool_calls w =
           Some (length (get_tool_calls_from_response l (achat_with_tools l ts msgs)))"
    and "length (events_buffer w) <
           length (get_tool_calls_from_response l (achat_with_tools l ts msgs))"
    and "length pending + length (events_buffer w) =
           length (get_tool_calls_from_response l (achat_with_tools l ts msgs))"
    and "\<forall>e \<in> set pending. tool_event e"
    and "\<forall>m \<in> set (events_buffer w). role m = Tool"
    and "heap w r = base @ flatten_rounds rounds @ [message (achat_with_tools l ts msgs)]"
  shows "round_inv r l base w pending"
  unfolding round_inv_def using assms by blast

lemma dispatch_keeps_rounds:
  assumes inv: "round_inv r l base w pending" and i: "i < length pending"
    and d: "dispatch d w (pending ! i) = (Inr evs, w1)" and s: "stop_of evs = None"
  shows "round_inv r l base w1 ((take i pending @ drop (Suc i) pending) @ evs)"
proof -
  let ?rest = "take i pending @ drop (Suc i) pending"
  from inv have c: "ctx_chat_history w = Some r" "ctx_llm w = Some l"
    unfolding round_inv_def by simp_all
  from inv obtain rounds where rd: "\<forall>rd \<in> set rounds. tool_round l rd"
    and alt: "pending = [LLMCallEvent] \<and> events_buffer w = []
                \<and> heap w r = base @ flatten_rounds rounds
              \<or> (\<exists>ts msgs.
                    ctx_num_tool_calls w =
                      Some (length (get_tool_calls_from_response l (achat_with_tools l ts msgs)))
                    \<and> length (events_buffer w) <
                        length (get_tool_calls_from_response l (achat_with_tools l ts msgs))
                    \<and> length pending + length (events_buffer w) =
                        length (get_tool_calls_from_response l (achat_with_tools l ts msgs))
                    \<and> (\<forall>e \<in> set pending. tool_event e)
                    \<and> (\<forall>m \<in> set (events_buffer w). role m = Tool)
                    \<and> heap w r = base @ flatten_rounds rounds
                         @ [message (achat_with_tools l ts msgs)])"
    unfolding round_inv_def by blast
  from alt show ?thesis
  proof (elim disjE exE conjE)
    assume p: "pending = [LLMCallEvent]" and b: "events_buffer w = []"
      and h: "heap w r = base @ flatten_rounds rounds"
    have "pending ! i = LLMCallEvent" and rest: "?rest = []" using p i by simp_all
    then have sp: "speak_with_agent w = (Inr evs, w1)" using d by simp
    from speak_with_agent_requests[OF sp s c]
    obtain ts msgs where q:
      "length evs = length (get_tool_calls_from_response l (achat_with_tools l ts msgs))"
      "get_tool_calls_from_response l (achat_with_tools l ts msgs) \<noteq> []"
      "\<forall>e \<in> set evs. tool_event e"
      "ctx_num_tool_calls w1 = Some (length evs)"
      "heap w1 = (heap w)(r := heap w r @ [message (achat_with_tools l ts msgs)])"
      "ctx_chat_history w1 = Some r" "ctx_llm w1 = Some l"
      "events_buffer w1 = events_buffer w"
      by blast
    show ?thesis
    proof (rule round_invI_tools[where rounds = rounds and ts = ts and msgs = msgs])
      show "ctx_chat_history w1 = Some r" "ctx_llm w1 = Some l" by (rule q)+
      show "\<forall>rd \<in> set rounds. tool_round l rd" by (rule rd)
      show "ctx_num_tool_calls w1 =
              Some (length (get_tool_calls_from_response l (achat_with_tools l ts msgs)))"
        using q(4) q(1) by simp
      show "length (events_buffer w1) <
              length (get_tool_calls_from_response l (achat_with_tools l ts msgs))"
        using q(8) b q(2) by simp
      show "length (?rest @ evs) + length (events_buffer w1) =
              length (get_tool_calls_from_response l (achat_with_tools l ts msgs))"
        unfolding rest using q(1) q(8) b by simp
      show "\<forall>e \<in> set (?rest @ evs). tool_event e" unfolding rest using q(3) by simp
      show "\<forall>m \<in> set (events_buffer w1). role m = Tool" using q(8) b by simp
      show "heap w1 r = base @ flatten_rounds rounds @ [message (achat_with_tools l ts msgs)]"
        using q(5) h by simp
    qed
  next
    fix ts msgs
    let ?N = "length (get_tool_calls_from_response l (achat_with_tools l ts msgs))"
    assume n: "ctx_num_tool_calls w = Some ?N"
      and b: "length (events_buffer w) < ?N"
      and sum: "length pending + length (events_buffer w) = ?N"
      and te: "\<forall>e \<in> set pending. tool_event e"
      and tb: "\<forall>m \<in> set (events_buffer w). role m = Tool"
      and h: "heap w r = base @ flatten_rounds rounds @ [message (achat_with_tools l ts msgs)]"
    have e: "tool_event (pending ! i)" using te i by simp
    have rest_te: "\<forall>e \<in> set ?rest. tool_event e"
      using te set_remove_nth_subset[of i pending] by blast
    have rest_len: "length ?rest = length pending - 1"
      using i by simp
    show ?thesis
    proof (cases "pending ! i")
      case (ToolCallEvent tc tls)
      then have ht: "handle_tool_call w tc tls = (Inr evs, w1)" using d by simp
      from handle_tool_call_returns[OF ht]
      obtain m where m: "evs = [ToolCallResultEvent m]" "role m = Tool" "heap w1 = heap w"
        "w1 = w\<lparr>stream := stream w1\<rparr>"
        by blast
      have k: "ctx_chat_history w1 = Some r" "ctx_llm w1 = Some l"
        "events_buffer w1 = events_buffer w" "ctx_num_tool_calls w1 = Some ?N"
        by (subst m(4), simp add: c n)+
      show ?thesis
      proof (rule round_invI_tools[where rounds = rounds and ts = ts and msgs = msgs])
        show "ctx_chat_history w1 = Some r" "ctx_llm w1 = Some l" by (rule k)+
        show "\<forall>rd \<in> set rounds. tool_round l rd" by (rule rd)
        show "ctx_num_tool_calls w1 = Some ?N" by (rule k)
        show "length (events_buffer w1) < ?N" using k(3) b by simp
        show "length (?rest @ evs) + length (events_buffer w1) = ?N"
          using rest_len m(1) k(3) sum i by simp
        show "\<forall>e \<in> set (?rest @ evs). tool_event e" using rest_te m(1,2) by simp
        show "\<forall>m \<in> set (events_buffer w1). role m = Tool" using k(3) tb by simp
        show "heap w1 r = base @ flatten_rounds rounds @ [message (achat_with_tools l ts msgs)]"
          using m(3) h by simp
      qed
    next
      case (ToolCallResultEvent m)
      then have ag: "aggregate_tool_results w m = (Inr evs, w1)" using d by simp
      have rm: "role m = Tool" using e ToolCallResultEvent by simp
      show ?thesis
      proof (cases "Suc (length (events_buffer w)) < ?N")
        case True
        from aggregate_waiting[OF n True, of m] ag
        have evs: "evs = []" and w1: "w1 = w\<lparr>events_buffer := events_buffer w @ [m]\<rparr>"
          by simp_all
        show ?thesis
        proof (rule round_invI_tools[where rounds = rounds and ts = ts and msgs = msgs])
          show "ctx_chat_history w1 = Some r" "ctx_llm w1 = Some l" using w1 c by simp_all
          show "\<forall>rd \<in> set rounds. tool_round l rd" by (rule rd)
          show "ctx_num_tool_calls w1 = Some ?N" using w1 n by simp
          show "length (events_buffer w1) < ?N" using w1 True by simp
          show "length (?rest @ evs) + length (events_buffer w1) = ?N"
            using rest_len evs w1 sum i by simp
          show "\<forall>e \<in> set (?rest @ evs). tool_event e" using rest_te evs by simp
          show "\<forall>m \<in> set (events_buffer w1). role m = Tool" using w1 tb rm by simp
          show "heap w1 r = base @ flatten_rounds rounds
                  @ [message (achat_with_tools l ts msgs)]"
            using w1 h by simp
        qed
      next
        case False
        then have full: "Suc (length (events_buffer w)) = ?N" using b by simp
        from aggregate_complete[OF n full c(1), of m] ag
        have evs: "evs = [LLMCallEvent]"
          and w1: "w1 = w\<lparr>events_buffer := [],
                       heap := (heap w)(r := heap w r @ events_buffer w @ [m])\<rparr>"
          by simp_all
        have "length ?rest = 0" using rest_len sum full by simp
        then have rest: "?rest = []" by (simp only: length_0_conv)
        let ?rd = "(message (achat_with_tools l ts msgs), events_buffer w @ [m])"
        have ne: "get_tool_calls_from_response l (achat_with_tools l ts msgs) \<noteq> []"
          using b by auto
        have "tool_round l ?rd"
          unfolding tool_round_def using full ne tb rm by auto
        then have rd': "\<forall>rd \<in> set (rounds @ [?rd]). tool_round l rd" using rd by simp
        show ?thesis
        proof (rule round_invI_model_call[where rounds = "rounds @ [?rd]"])
          show "ctx_chat_history w1 = Some r" "ctx_llm w1 = Some l" using w1 c by simp_all
          show "\<forall>rd \<in> set (rounds @ [?rd]). tool_round l rd" by (rule rd')
          show "?rest @ evs = [LLMCallEvent]" unfolding rest using evs by simp
          show "events_buffer w1 = []" using w1 by simp
          show "heap w1 r = base @ flatten_rounds (rounds @ [?rd])"
            using w1 h by (simp add: flatten_rounds_snoc)
        qed
      qed
    qed (use e in simp_all)
  qed
qed

lemma run_loop_rounds:
  assumes "run_loop fuel sched d w pending = Some (out, w')"
    and "round_inv r l base w pending"
  shows "round_post r l base out w'"
proof (rule run_loop_induct[OF assms(1), where I = "round_inv r l base"
      and Q = "round_post r l base"])
  show "round_inv r l base w pending" by (rule assms(2))
next
  fix w pending i evs w1
  assume "round_inv r l base w pending" "i < length pending"
    "dispatch d w (pending ! i) = (Inr evs, w1)" "stop_of evs = None"
  then show "round_inv r l base w1 ((take i pending @ drop (Suc i) pending) @ evs)"
    by (rule dispatch_keeps_rounds)
next
  fix w
  assume "round_inv r l base w []"
  then have False unfolding round_inv_def by auto
  then show "round_post r l base Stalled w" ..
next
  fix w pending i e w1
  show "round_post r l base (Failed e) w1" by (simp add: round_post_def)
next
  fix w pending i evs w1 res
  assume inv: "round_inv r l base w pending" and i: "i < length pending"
    and d: "dispatch d w (pending ! i) = (Inr evs, w1)" and s: "stop_of evs = Some res"
  from dispatch_stops[OF d s]
  obtain l' r' m where e: "pending ! i = LLMCallEvent"
    and k: "ctx_llm w = Some l'" "ctx_chat_history w = Some r'"
      "heap w1 = (heap w)(r' := heap w r' @ [m])"
      "res = \<lparr>response = content m, chat_history = r'\<rparr>"
    by blast
  from inv have c: "ctx_chat_history w = Some r" "ctx_llm w = Some l"
    unfolding round_inv_def by simp_all
  have r': "r' = r" using k(2) c(1) by simp
  have "\<not> tool_event (pending ! i)" using e by simp
  then have "\<not> (\<forall>e \<in> set pending. tool_event e)" using i by auto
  then obtain rounds where rd: "\<forall>rd \<in> set rounds. tool_round l rd"
    and h: "heap w r = base @ flatten_rounds rounds"
    using inv unfolding round_inv_def by blast
  have "heap w1 r = base @ flatten_rounds rounds @ [m]"
    using k(3) h r' by simp
  then show "round_post r l base (Completed res) w1"
    unfolding round_post_def using rd k(4) r' by blast
qed

lemma run_rounds:
  assumes "run fuel sched d h n ev = Some (out, w')"
  shows "out \<noteq> Stalled
       \<and> (\<forall>res. out = Completed res \<longrightarrow>
             (\<exists>um l rounds fin.
                ev_user_msg ev = Some (Some um) \<and> ev_get (ev_llm ev) (Some d) = Some l
              \<and> (\<forall>rd \<in> set rounds. tool_round l rd)
              \<and> heap w' (chat_history res) =
                  (if ev_chat_history ev = None then [] else h (chat_history res))
                    @ user_message um # flatten_rounds rounds @ [fin]))"
proof (cases fuel)
  case 0
  then show ?thesis using assms by (simp add: run_def)
next
  case (Suc k)
  obtain x w1 where st: "setup_step d (init_world h n) ev = (x, w1)"
    by (cases "setup_step d (init_world h n) ev")
  show ?thesis
  proof (cases x)
    case (Inl e)
    then have "out = Failed e"
      using assms Suc st by (simp add: run_Suc_start)
    then show ?thesis by simp
  next
    case (Inr evs)
    then have rl: "run_loop k sched d w1 [LLMCallEvent] = Some (out, w')"
      using assms Suc st by (simp add: run_Suc_start)
    obtain um l where v: "ev_user_msg ev = Some (Some um)"
      "ev_get (ev_llm ev) (Some d) = Some l" "is_function_calling_model l"
      "ev_chat_history ev \<noteq> Some None"
      using setup_step_Inr st Inr by blast
    from setup_step_ok[OF v, of "init_world h n"] st
    obtain r where r: "ev_get (ev_chat_history ev) (Some n) = Some r"
      and c: "ctx_llm w1 = Some l" "ctx_chat_history w1 = Some r"
        "events_buffer w1 = []"
        "heap w1 r = (if ev_chat_history ev = None then [] else h r)
                @ [\<lparr>role = User, content = um, additional_kwargs = []\<rparr>]"
      by (auto simp: init_world_def)
    let ?base = "(if ev_chat_history ev = None then [] else h r) @ [user_message um]"
    have "round_inv r l ?base w1 [LLMCallEvent]"
    proof (rule round_invI_model_call[where rounds = "[]"])
      show "heap w1 r = ?base @ flatten_rounds []"
        using c(4) by (simp add: flatten_rounds_def user_message_def)
    qed (use c in simp_all)
    from run_loop_rounds[OF rl this]
    have post: "round_post r l ?base out w'" .
    have "\<exists>um l rounds fin.
                ev_user_msg ev = Some (Some um) \<and> ev_get (ev_llm ev) (Some d) = Some l
              \<and> (\<forall>rd \<in> set rounds. tool_round l rd)
              \<and> heap w' (chat_history res) =
                  (if ev_chat_history ev = None then [] else h (chat_history res))
                    @ user_message um # flatten_rounds rounds @ [fin]"
      if "out = Completed res" for res
    proof -
      from post that obtain rounds fin where p: "\<forall>rd \<in> set rounds. tool_round l rd"
        "heap w' r = ?base @ flatten_rounds rounds @ [fin]"
        "res = \<lparr>response = content fin, chat_history = r\<rparr>"
        unfolding round_post_def by blast
      have "chat_history res = r" using p(3) by simp
      then show ?thesis using v(1,2) p(1,2) by auto
    qed
    moreover have "out \<noteq> Stalled" using post unfolding round_post_def by simp
    ultimately show ?thesis by blast
  qed
qed

subsection \<open>The join of the tool results\<close>

text \<open>
  C2. In a round in which the model asked for \<open>N \<ge> 1\<close> tool calls, let the results
  \<open>ms\<close> arrive one by one at \<^verbatim>\<open>aggregate_tool_results\<close>, starting from an empty
  buffer. Each of the first \<open>N - 1\<close> arrivals emits no event and changes nothing but
  the buffer of collected results: the chat history and the context are as before.
  The arrival of the \<open>N\<close>-th result appends all \<open>N\<close> results, in the order of their
  arrival, to the chat history and emits \<^verbatim>\<open>LLMCallEvent\<close>, which is the model-call
  stage. Every tool call that \<^verbatim>\<open>handle_tool_call\<close> completes emits exactly one result
  event, and its message has the role \<^verbatim>\<open>tool\<close>. So the rounds of a run are whole: a
  run never comes to rest with results still awaited, and the chat history of a
  completed run is the given history, the user message, then tool rounds, each a
  request of the model followed by exactly as many tool results as it asks for calls,
  then the final answer.
\<close>

theorem aggregate_tool_results_barrier:
  assumes "ctx_num_tool_calls w = Some N" and "1 \<le> N" and "ctx_chat_history w = Some r"
    and "events_buffer w = []" and "length ms = N"
  shows "(\<forall>k<N. aggregate_tool_results (arrived w (take k ms)) (ms ! k) =
            (if Suc k < N then (Inr [], w\<lparr>events_buffer := take (Suc k) ms\<rparr>)
             else (Inr [LLMCallEvent],
                   w\<lparr>events_buffer := [], heap := (heap w)(r := heap w r @ ms)\<rparr>)))
       \<and> (\<forall>w0 tc ts evs w1. handle_tool_call w0 tc ts = (Inr evs, w1) \<longrightarrow>
             (\<exists>m. evs = [ToolCallResultEvent m] \<and> role m = Tool))
       \<and> (\<forall>fuel sched d h n ev out w'.
             run fuel sched d h n ev = Some (out, w') \<longrightarrow>
             out \<noteq> Stalled
             \<and> (\<forall>res. out = Completed res \<longrightarrow>
                   (\<exists>um l rounds fin.
                      ev_user_msg ev = Some (Some um) \<and> ev_get (ev_llm ev) (Some d) = Some l
                    \<and> (\<forall>rd \<in> set rounds. tool_round l rd)
                    \<and> heap w' (chat_history res) =
                        (if ev_chat_history ev = None then [] else h (chat_history res))
                          @ user_message um # flatten_rounds rounds @ [fin])))"
proof (intro conjI allI impI)
  fix k assume k: "k < N"
  have a: "arrived w (take k ms) = w\<lparr>events_buffer := take k ms\<rparr>"
    using k assms(5) by (intro arrived_waiting[OF assms(1) assms(4)]) simp
  have t: "take (Suc k) ms = take k ms @ [ms ! k]"
    using k assms(5) by (simp add: take_Suc_conv_app_nth)
  show "aggregate_tool_results (arrived w (take k ms)) (ms ! k) =
            (if Suc k < N then (Inr [], w\<lparr>events_buffer := take (Suc k) ms\<rparr>)
             else (Inr [LLMCallEvent],
                   w\<lparr>events_buffer := [], heap := (heap w)(r := heap w r @ ms)\<rparr>))"
  proof (cases "Suc k < N")
    case True
    have "aggregate_tool_results (w\<lparr>events_buffer := take k ms\<rparr>) (ms ! k) =
            (Inr [], w\<lparr>events_buffer := take k ms\<rparr>\<lparr>events_buffer :=
               events_buffer (w\<lparr>events_buffer := take k ms\<rparr>) @ [ms ! k]\<rparr>)"
      using True k assms(1,5) by (intro aggregate_waiting[where N = N]) simp_all
    then show ?thesis using True by (simp add: a t)
  next
    case False
    then have e: "Suc k = N" using k by simp
    then have full: "take k ms @ [ms ! k] = ms"
      using t assms(5) by simp
    have "aggregate_tool_results (w\<lparr>events_buffer := take k ms\<rparr>) (ms ! k) =
            (Inr [LLMCallEvent],
             w\<lparr>events_buffer := take k ms\<rparr>\<lparr>events_buffer := [],
               heap := (heap (w\<lparr>events_buffer := take k ms\<rparr>))
                 (r := heap (w\<lparr>events_buffer := take k ms\<rparr>) r
                    @ events_buffer (w\<lparr>events_buffer := take k ms\<rparr>) @ [ms ! k])\<rparr>)"
      using e k assms(1,3,5) by (intro aggregate_complete[where N = N]) simp_all
    then show ?thesis using False by (simp add: a full)
  qed
next
  fix w0 tc ts evs w1
  assume "handle_tool_call w0 tc ts = (Inr evs, w1)"
  then show "\<exists>m. evs = [ToolCallResultEvent m] \<and> role m = Tool"
    using handle_tool_call_returns by blast
next
  fix fuel sched d h n ev out w'
  assume "run fuel sched d h n ev = Some (out, w')"
  note rr = run_rounds[OF this]
  show "out \<noteq> Stalled" using rr by blast
  fix res assume "out = Completed res"
  then show "\<exists>um l rounds fin.
                      ev_user_msg ev = Some (Some um) \<and> ev_get (ev_llm ev) (Some d) = Some l
                    \<and> (\<forall>rd \<in> set rounds. tool_round l rd)
                    \<and> heap w' (chat_history res) =
                        (if ev_chat_history ev = None then [] else h (chat_history res))
                          @ user_message um # flatten_rounds rounds @ [fin]"
    using rr by blast
qed

theorem aggregate_tool_results_barrier_witness:
  "ctx_num_tool_calls (waiting_world 2) = Some 2 \<and> (1::nat) \<le> 2
   \<and> ctx_chat_history (waiting_world 2) = Some 0 \<and> events_buffer (waiting_world 2) = []
   \<and> length [result_a, result_b] = 2
   \<and> aggregate_tool_results (arrived (waiting_world 2) []) result_a =
        (Inr [], (waiting_world 2)\<lparr>events_buffer := [result_a]\<rparr>)
   \<and> aggregate_tool_results (arrived (waiting_world 2) [result_a]) result_b =
        (Inr [LLMCallEvent],
         (waiting_world 2)\<lparr>events_buffer := [],
            heap := (heap (waiting_world 2))(0 := heap (waiting_world 2) 0 @ [result_a, result_b])\<rparr>)
   \<and> (\<exists>m. fst (handle_tool_call (waiting_world 2) failing_call (Some [add_two_numbers_tool]))
             = Inr [ToolCallResultEvent m] \<and> role m = Tool)
   \<and> (\<exists>w' rounds fin.
         run 5 (\<lambda>_ _. 0) no_tools_llm (\<lambda>_. []) 1 (example_start ''add_two_numbers'') =
           Some (Completed \<lparr>response = ''10 + 10 is 20.'', chat_history = 0\<rparr>, w')
         \<and> heap w' 0 = user_message ''What is 10 + 10?'' # flatten_rounds rounds @ [fin])"
proof -
  have h: "ctx_num_tool_calls (waiting_world 2) = Some 2" "(1::nat) \<le> 2"
    "ctx_chat_history (waiting_world 2) = Some 0" "events_buffer (waiting_world 2) = []"
    "length [result_a, result_b] = 2"
    by (simp_all add: waiting_world_def init_world_def)
  note t = aggregate_tool_results_barrier[OF h]
  note b = t[THEN conjunct1, rule_format]
  have "(0::nat) < 2" and "(1::nat) < 2" by simp_all
  from b[OF this(1)] b[OF this(2)]
  have c1: "aggregate_tool_results (arrived (waiting_world 2) []) result_a =
        (Inr [], (waiting_world 2)\<lparr>events_buffer := [result_a]\<rparr>)"
    "aggregate_tool_results (arrived (waiting_world 2) [result_a]) result_b =
        (Inr [LLMCallEvent],
         (waiting_world 2)\<lparr>events_buffer := [],
            heap := (heap (waiting_world 2))(0 := heap (waiting_world 2) 0 @ [result_a, result_b])\<rparr>)"
    by simp_all
  obtain x w1 where ht:
    "handle_tool_call (waiting_world 2) failing_call (Some [add_two_numbers_tool]) = (x, w1)"
    by (cases "handle_tool_call (waiting_world 2) failing_call (Some [add_two_numbers_tool])")
  have "\<not> isl x"
    using ht
    by (auto simp: handle_tool_call_def tools_by_name_def add_two_numbers_tool_def
        failing_call_def Let_def)
  then obtain evs where "x = Inr evs" by (cases x) simp_all
  then have c2: "\<exists>m. fst (handle_tool_call (waiting_world 2) failing_call
                           (Some [add_two_numbers_tool]))
             = Inr [ToolCallResultEvent m] \<and> role m = Tool"
    using t[THEN conjunct2, THEN conjunct1, rule_format, of "waiting_world 2" failing_call
        "Some [add_two_numbers_tool]" evs w1] ht by simp
  obtain w' where r: "run 5 (\<lambda>_ _. 0) no_tools_llm (\<lambda>_. []) 1 (example_start ''add_two_numbers'')
        = Some (Completed \<lparr>response = ''10 + 10 is 20.'', chat_history = 0\<rparr>, w')"
    using example_run by blast
  from t[THEN conjunct2, THEN conjunct2, rule_format, OF r, THEN conjunct2, rule_format, OF refl]
  obtain um rounds fin where
    u: "ev_user_msg (example_start ''add_two_numbers'') = Some (Some um)"
    and hp: "heap w' (chat_history \<lparr>response = ''10 + 10 is 20.'', chat_history = 0\<rparr>) =
       (if ev_chat_history (example_start ''add_two_numbers'') = None then []
        else (\<lambda>_. []) (chat_history \<lparr>response = ''10 + 10 is 20.'', chat_history = 0\<rparr>))
         @ user_message um # flatten_rounds rounds @ [fin]"
    by blast
  have "um = ''What is 10 + 10?''" using u by (simp add: example_start_def)
  then have "heap w' 0 = user_message ''What is 10 + 10?'' # flatten_rounds rounds @ [fin]"
    using hp by (simp add: example_start_def)
  then have c3: "\<exists>w' rounds fin.
         run 5 (\<lambda>_ _. 0) no_tools_llm (\<lambda>_. []) 1 (example_start ''add_two_numbers'') =
           Some (Completed \<lparr>response = ''10 + 10 is 20.'', chat_history = 0\<rparr>, w')
         \<and> heap w' 0 = user_message ''What is 10 + 10?'' # flatten_rounds rounds @ [fin]"
    using r by blast
  show ?thesis using h c1 c2 c3 by (intro conjI)
qed

subsection \<open>A run without system prompt\<close>

lemma dispatch_keeps_config:
  assumes "dispatch d w e = (x, w1)" and "in_round e"
  shows "ctx_agent_config w1 = ctx_agent_config w"
proof (cases e)
  case LLMCallEvent
  then have sp: "speak_with_agent w = (x, w1)" using assms by simp
  show ?thesis
  proof (cases x)
    case (Inl err)
    then show ?thesis using sp by (auto dest: speak_with_agent_Inl)
  next
    case (Inr evs)
    then obtain cfg sp' r l us where c: "ctx_agent_config w = Some (Some cfg)"
      "system_prompt cfg = Some sp'" "ctx_chat_history w = Some r" "ctx_llm w = Some l"
      "ctx_user_state w = Some (Some us)"
      using speak_with_agent_Inr sp by blast
    show ?thesis
      using speak_with_agent_ok[OF c refl refl] sp by (auto split: if_splits)
  qed
next
  case (ToolCallEvent tc ts)
  then have ht: "handle_tool_call w tc ts = (x, w1)" using assms by simp
  show ?thesis
  proof (cases x)
    case (Inl err)
    then show ?thesis using ht by (auto dest: handle_tool_call_Inl)
  next
    case (Inr evs)
    then obtain m where "w1 = w\<lparr>stream := stream w1\<rparr>"
      using handle_tool_call_returns ht by blast
    then have "ctx_agent_config w1 = ctx_agent_config (w\<lparr>stream := stream w1\<rparr>)"
      by (rule arg_cong)
    then show ?thesis by simp
  qed
next
  case (ToolCallResultEvent m)
  then have ag: "aggregate_tool_results w m = (x, w1)" using assms by simp
  show ?thesis
    using ag
    by (auto simp: aggregate_tool_results_def collect_events_def foldl_list_append Let_def
        split: option.splits if_splits list.splits)
qed (use assms in simp_all)

lemma dispatch_strip_error:
  assumes "dispatch d w e = (Inl (AttributeError ''strip''), w1)" and "in_round e"
  shows "\<exists>cfg. ctx_agent_config w = Some (Some cfg) \<and> system_prompt cfg = None"
proof (cases e)
  case LLMCallEvent
  then show ?thesis
    using assms
    by (auto simp: speak_with_agent_def key_not_found_def Let_def
        split: option.splits if_splits)
next
  case (ToolCallEvent tc ts)
  then show ?thesis
    using assms by (auto simp: handle_tool_call_def Let_def split: option.splits)
next
  case (ToolCallResultEvent m)
  then show ?thesis
    using assms
    by (auto simp: aggregate_tool_results_def collect_events_def key_not_found_def Let_def
        split: option.splits if_splits list.splits)
qed (use assms in simp_all)

lemma run_loop_no_strip_error:
  assumes "run_loop fuel sched d w pending = Some (out, w')"
    and "ctx_agent_config w = Some (Some cfg)" and "system_prompt cfg \<noteq> None"
    and "run_inv r l base hs w pending"
  shows "out \<noteq> Failed (AttributeError ''strip'')"
proof (rule run_loop_induct[OF assms(1),
      where I = "\<lambda>w p. run_inv r l base hs w p \<and> ctx_agent_config w = Some (Some cfg)"
      and Q = "\<lambda>out w. out \<noteq> Failed (AttributeError ''strip'')"])
  show "run_inv r l base hs w pending \<and> ctx_agent_config w = Some (Some cfg)"
    using assms by simp
next
  fix w pending i evs w1
  assume inv: "run_inv r l base hs w pending \<and> ctx_agent_config w = Some (Some cfg)"
    and i: "i < length pending"
    and d: "dispatch d w (pending ! i) = (Inr evs, w1)" and s: "stop_of evs = None"
  have "in_round (pending ! i)" using inv i unfolding run_inv_def by simp
  then have "ctx_agent_config w1 = Some (Some cfg)"
    using dispatch_keeps_config[OF d] inv by simp
  moreover have "run_inv r l base hs w1 ((take i pending @ drop (Suc i) pending) @ evs)"
    using dispatch_keeps_inv[OF _ i d s] inv by simp
  ultimately show "run_inv r l base hs w1 ((take i pending @ drop (Suc i) pending) @ evs)
                   \<and> ctx_agent_config w1 = Some (Some cfg)"
    by simp
next
  fix w pending i e w1
  assume inv: "run_inv r l base hs w pending \<and> ctx_agent_config w = Some (Some cfg)"
    and i: "i < length pending"
    and d: "dispatch d w (pending ! i) = (Inl e, w1)"
  have "in_round (pending ! i)" using inv i unfolding run_inv_def by simp
  then show "Failed e \<noteq> Failed (AttributeError ''strip'')"
    using dispatch_strip_error[of d w "pending ! i" w1] d inv assms(3) by auto
qed simp_all

lemma run_no_strip_error:
  assumes "ev_agent_config ev = Some (Some cfg)" and "system_prompt cfg \<noteq> None"
  shows "run fuel sched d h n ev \<noteq> Some (Failed (AttributeError ''strip''), w')"
proof
  assume a: "run fuel sched d h n ev = Some (Failed (AttributeError ''strip''), w')"
  show False
  proof (cases fuel)
    case 0
    then show ?thesis using a by (simp add: run_def)
  next
    case (Suc k)
    obtain x w1 where st: "setup_step d (init_world h n) ev = (x, w1)"
      by (cases "setup_step d (init_world h n) ev")
    show ?thesis
    proof (cases x)
      case (Inl e)
      then have "e = AttributeError ''strip''"
        using a Suc st by (simp add: run_Suc_start)
      then show ?thesis
        using setup_step_result[of d "init_world h n" ev] st Inl by (auto split: if_splits)
    next
      case (Inr evs)
      then have rl: "run_loop k sched d w1 [LLMCallEvent]
                       = Some (Failed (AttributeError ''strip''), w')"
        using a Suc st by (simp add: run_Suc_start)
      obtain um l where v: "ev_user_msg ev = Some (Some um)"
        "ev_get (ev_llm ev) (Some d) = Some l" "is_function_calling_model l"
        "ev_chat_history ev \<noteq> Some None"
        using setup_step_Inr st Inr by blast
      from setup_step_ok[OF v, of "init_world h n"] st
      obtain r where c: "ctx_agent_config w1 = Some (ev_get (ev_agent_config ev) None)"
        "ctx_llm w1 = Some l" "ctx_chat_history w1 = Some r" "events_buffer w1 = []"
        by (auto simp: init_world_def)
      have cfg: "ctx_agent_config w1 = Some (Some cfg)"
        using c(1) assms(1) by (simp add: ev_get_def)
      have "run_inv r l (heap w1 r) (heap w1) w1 [LLMCallEvent]"
        unfolding run_inv_def using c(2-4) by (auto intro: exI[of _ "[]"])
      from run_loop_no_strip_error[OF rl cfg assms(2) this] show ?thesis by simp
    qed
  qed
qed

text \<open>
  C9. Take a run whose inputs pass \<^verbatim>\<open>setup\<close> and whose user state is a mapping. If
  the system prompt of its \<^verbatim>\<open>AgentConfig\<close> is \<^verbatim>\<open>None\<close>, the first model-call stage
  raises \<^verbatim>\<open>AttributeError\<close> at \<^verbatim>\<open>.strip()\<close>, before the model is called, and the run
  fails with it. If the system prompt is not \<^verbatim>\<open>None\<close>, no run fails with this error,
  however long it runs and whatever the order of its events. In every state in which
  the context holds this configuration, \<^verbatim>\<open>speak_with_agent\<close> raises exactly when the
  system prompt is \<^verbatim>\<open>None\<close>, and then with this error.
\<close>

theorem system_prompt_None_raises:
  assumes "ev_agent_config ev = Some (Some cfg)" and "ev_user_msg ev = Some (Some um)"
    and "ev_get (ev_llm ev) (Some d) = Some l" and "is_function_calling_model l"
    and "ev_chat_history ev \<noteq> Some None" and "ev_initial_state ev \<noteq> Some None"
  shows "(system_prompt cfg = None \<longrightarrow>
            (\<exists>w'. run (Suc (Suc fuel)) sched d h n ev = Some (Failed (AttributeError ''strip''), w')
                  \<and> llm_calls w' = []))
       \<and> (system_prompt cfg \<noteq> None \<longrightarrow>
            (\<forall>fuel' sched' w'.
               run fuel' sched' d h n ev \<noteq> Some (Failed (AttributeError ''strip''), w')))
       \<and> (\<forall>w. ctx_agent_config w = Some (Some cfg) \<and> ctx_chat_history w \<noteq> None
               \<and> ctx_llm w \<noteq> None \<and> (\<exists>us. ctx_user_state w = Some (Some us)) \<longrightarrow>
             (isl (fst (speak_with_agent w)) \<longleftrightarrow> system_prompt cfg = None)
             \<and> (fst (speak_with_agent w) = Inl (AttributeError ''strip'')
                  \<longleftrightarrow> system_prompt cfg = None))"
proof (intro conjI allI impI)
  assume none: "system_prompt cfg = None"
  obtain w1 r where s: "setup_step d (init_world h n) ev = (Inr [LLMCallEvent], w1)"
    and c: "ctx_agent_config w1 = Some (ev_get (ev_agent_config ev) None)"
      "ctx_llm w1 = Some l" "ctx_chat_history w1 = Some r"
      "ctx_user_state w1 = Some (ev_get (ev_initial_state ev) (Some []))"
      "llm_calls w1 = llm_calls (init_world h n)"
    using setup_step_ok[OF assms(2-5), of "init_world h n"] by blast
  obtain us where us: "ctx_user_state w1 = Some (Some us)"
    using c(4) assms(6) by (cases "ev_initial_state ev") (auto simp: ev_get_def)
  have cfg: "ctx_agent_config w1 = Some (Some cfg)"
    using c(1) assms(1) by (simp add: ev_get_def)
  have "speak_with_agent w1 = (Inl (AttributeError ''strip''), w1)"
    using speak_with_agent_raises(3)[OF cfg c(3) c(2) us none] .
  then have "run (Suc (Suc fuel)) sched d h n ev = Some (Failed (AttributeError ''strip''), w1)"
    using s by (simp add: run_Suc_start Let_def)
  moreover have "llm_calls w1 = []" using c(5) by (simp add: init_world_def)
  ultimately show "\<exists>w'. run (Suc (Suc fuel)) sched d h n ev
                        = Some (Failed (AttributeError ''strip''), w') \<and> llm_calls w' = []"
    by blast
next
  fix fuel' sched' w'
  assume "system_prompt cfg \<noteq> None"
  then show "run fuel' sched' d h n ev \<noteq> Some (Failed (AttributeError ''strip''), w')"
    using run_no_strip_error[OF assms(1)] by blast
next
  fix w :: world
  assume a: "ctx_agent_config w = Some (Some cfg) \<and> ctx_chat_history w \<noteq> None
               \<and> ctx_llm w \<noteq> None \<and> (\<exists>us. ctx_user_state w = Some (Some us))"
  then obtain r l' us where b: "ctx_agent_config w = Some (Some cfg)"
    "ctx_chat_history w = Some r" "ctx_llm w = Some l'" "ctx_user_state w = Some (Some us)"
    by auto
  show "isl (fst (speak_with_agent w)) \<longleftrightarrow> system_prompt cfg = None"
    using speak_with_agent_raises(2)[OF b] .
  show "fst (speak_with_agent w) = Inl (AttributeError ''strip'') \<longleftrightarrow> system_prompt cfg = None"
    using speak_with_agent_raises(1)[OF b] .
qed

theorem system_prompt_None_raises_witness:
  "system_prompt promptless_config = None
   \<and> (\<exists>w'. run 2 (\<lambda>_ _. 0) no_tools_llm (\<lambda>_. []) 1
               ((example_start ''add_two_numbers'')
                  \<lparr>ev_agent_config := Some (Some promptless_config)\<rparr>) =
             Some (Failed (AttributeError ''strip''), w')
           \<and> llm_calls w' = [])
   \<and> isl (fst (speak_with_agent
              (ready_world\<lparr>ctx_agent_config := Some (Some promptless_config)\<rparr>)))
   \<and> system_prompt example_config \<noteq> None
   \<and> map_option fst
        (run 5 (\<lambda>_ _. 0) no_tools_llm (\<lambda>_. []) 1 (example_start ''add_two_numbers''))
       \<noteq> Some (Failed (AttributeError ''strip''))"
proof -
  let ?ev = "(example_start ''add_two_numbers'')
               \<lparr>ev_agent_config := Some (Some promptless_config)\<rparr>"
  let ?ev' = "example_start ''add_two_numbers''"
  let ?w = "ready_world\<lparr>ctx_agent_config := Some (Some promptless_config)\<rparr>"
  have h: "ev_agent_config ?ev = Some (Some promptless_config)"
    "ev_user_msg ?ev = Some (Some ''What is 10 + 10?'')"
    "ev_get (ev_llm ?ev) (Some no_tools_llm) = Some (scripted_llm ''add_two_numbers'')"
    "is_function_calling_model (scripted_llm ''add_two_numbers'')"
    "ev_chat_history ?ev \<noteq> Some None" "ev_initial_state ?ev \<noteq> Some None"
    by (simp_all add: example_start_def ev_get_def scripted_llm_def)
  have h': "ev_agent_config ?ev' = Some (Some example_config)"
    "ev_user_msg ?ev' = Some (Some ''What is 10 + 10?'')"
    "ev_get (ev_llm ?ev') (Some no_tools_llm) = Some (scripted_llm ''add_two_numbers'')"
    "is_function_calling_model (scripted_llm ''add_two_numbers'')"
    "ev_chat_history ?ev' \<noteq> Some None" "ev_initial_state ?ev' \<noteq> Some None"
    by (simp_all add: example_start_def ev_get_def scripted_llm_def)
  have n: "system_prompt promptless_config = None"
    by (simp add: promptless_config_def)
  have p: "system_prompt example_config \<noteq> None"
    by (simp add: example_config_def)
  note t = system_prompt_None_raises[OF h, of 0 "\<lambda>_ _. 0" "\<lambda>_. []" 1]
  note t' = system_prompt_None_raises[OF h', of 0 "\<lambda>_ _. 0" "\<lambda>_. []" 1]
  have c1: "\<exists>w'. run 2 (\<lambda>_ _. 0) no_tools_llm (\<lambda>_. []) 1 ?ev =
             Some (Failed (AttributeError ''strip''), w') \<and> llm_calls w' = []"
    using t n by (simp add: numeral_2_eq_2)
  have w: "ctx_agent_config ?w = Some (Some promptless_config) \<and> ctx_chat_history ?w \<noteq> None
             \<and> ctx_llm ?w \<noteq> None \<and> (\<exists>us. ctx_user_state ?w = Some (Some us))"
    by (simp add: ready_world_def init_world_def)
  have c2: "isl (fst (speak_with_agent ?w))"
    using t[THEN conjunct2, THEN conjunct2, rule_format, OF w] n by simp
  have "\<forall>w'. run 5 (\<lambda>_ _. 0) no_tools_llm (\<lambda>_. []) 1 ?ev'
                \<noteq> Some (Failed (AttributeError ''strip''), w')"
    using t'[THEN conjunct2, THEN conjunct1] p by blast
  then have c3: "map_option fst (run 5 (\<lambda>_ _. 0) no_tools_llm (\<lambda>_. []) 1 ?ev')
                   \<noteq> Some (Failed (AttributeError ''strip''))"
    by (cases "run 5 (\<lambda>_ _. 0) no_tools_llm (\<lambda>_. []) 1 ?ev'") auto
  show ?thesis using n c1 c2 p c3 by (intro conjI)
qed

end
